theory Spec2Isabelle
  imports Main "HOL-Library.Word"
begin

unbundle bit_operations_syntax

section \<open>Basic datatypes of \<^verbatim>\<open>runtime.h\<close>\<close>

text \<open>
  The model follows \<^verbatim>\<open>cruntime/include/runtime.h\<close> on a 64-bit platform:
  \<^verbatim>\<open>uintptr_t\<close>, \<^verbatim>\<open>size_t\<close> and \<^verbatim>\<open>uintx_t\<close> are 64-bit words, a pointer is the
  address it holds. The tag enumeration is a C \<^verbatim>\<open>enum\<close>, modelled by its integer values.
\<close>

type_synonym uintptr_t = "64 word"
type_synonym size_t = "64 word"
type_synonym uintx_t = "64 word"
type_synonym ptr_t = "64 word"
type_synonym box_t = "64 word"
type_synonym tag_t = int

text \<open>
  The ways a run can stop without a result: a failed \<^verbatim>\<open>assert_internal\<close>, an access
  through a pointer that addresses no block, a non-void function that ends without a
  \<^verbatim>\<open>return\<close>, and a call that an implementation of an external function refuses.
\<close>

datatype error = Assertion_failed | Invalid_pointer | No_return_value | External string

subsection \<open>Tags for heap blocks (\<^verbatim>\<open>enum tag_e\<close>)\<close>

text \<open>
  The enumerators up to \<^verbatim>\<open>TAG_INT64\<close> have fixed values. \<^verbatim>\<open>TAG_INT32\<close>,
  \<^verbatim>\<open>TAG_DOUBLE\<close> and \<^verbatim>\<open>TAG_FLOAT\<close> exist only under \<^verbatim>\<open>#if INTPTR_SIZE < 8\<close>, so the
  values of the raw tags and of \<^verbatim>\<open>TAG_LAST\<close> depend on \<^verbatim>\<open>INTPTR_SIZE\<close> (defined in
  \<^verbatim>\<open>runtime/platform.h\<close>), which is a parameter here.
\<close>

definition TAG_INVALID :: tag_t where "TAG_INVALID = 0"
definition TAG_MIN :: tag_t where "TAG_MIN = 1"
definition TAG_MAX :: tag_t where "TAG_MAX = 65000"
definition TAG_OPEN :: tag_t where "TAG_OPEN = 65001"
definition TAG_BOX :: tag_t where "TAG_BOX = 65002"
definition TAG_REF :: tag_t where "TAG_REF = 65003"
definition TAG_FUNCTION :: tag_t where "TAG_FUNCTION = 65004"
definition TAG_BIGINT :: tag_t where "TAG_BIGINT = 65005"
definition TAG_STRING_SMALL :: tag_t where "TAG_STRING_SMALL = 65006"
definition TAG_STRING :: tag_t where "TAG_STRING = 65007"
definition TAG_BYTES :: tag_t where "TAG_BYTES = 65008"
definition TAG_VECTOR_SMALL :: tag_t where "TAG_VECTOR_SMALL = 65009"
definition TAG_VECTOR :: tag_t where "TAG_VECTOR = 65010"
definition TAG_INT64 :: tag_t where "TAG_INT64 = 65011"
definition TAG_INT32 :: tag_t where "TAG_INT32 = 65012"
definition TAG_DOUBLE :: tag_t where "TAG_DOUBLE = 65013"
definition TAG_FLOAT :: tag_t where "TAG_FLOAT = 65014"

definition TAG_CPTR_RAW :: "nat \<Rightarrow> tag_t" where
  "TAG_CPTR_RAW intptr_size = (if intptr_size < 8 then TAG_FLOAT + 1 else TAG_INT64 + 1)"

definition TAG_STRING_RAW :: "nat \<Rightarrow> tag_t" where
  "TAG_STRING_RAW intptr_size = TAG_CPTR_RAW intptr_size + 1"

definition TAG_BYTES_RAW :: "nat \<Rightarrow> tag_t" where
  "TAG_BYTES_RAW intptr_size = TAG_STRING_RAW intptr_size + 1"

definition TAG_LAST :: "nat \<Rightarrow> tag_t" where
  "TAG_LAST intptr_size = TAG_BYTES_RAW intptr_size + 1"

text \<open>The enumerators declared before \<^verbatim>\<open>TAG_CPTR_RAW\<close> in a build with the given
  \<^verbatim>\<open>INTPTR_SIZE\<close>, in declaration order.\<close>

definition declared_tags_before_raw :: "nat \<Rightarrow> tag_t list" where
  "declared_tags_before_raw intptr_size =
     [TAG_INVALID, TAG_MIN, TAG_MAX, TAG_OPEN, TAG_BOX, TAG_REF, TAG_FUNCTION, TAG_BIGINT,
      TAG_STRING_SMALL, TAG_STRING, TAG_BYTES, TAG_VECTOR_SMALL, TAG_VECTOR, TAG_INT64]
     @ (if intptr_size < 8 then [TAG_INT32, TAG_DOUBLE, TAG_FLOAT] else [])"

definition tag_is_raw :: "nat \<Rightarrow> tag_t \<Rightarrow> bool" where
  "tag_is_raw intptr_size tg = (tg \<ge> TAG_CPTR_RAW intptr_size)"

lemmas tag_defs =
  TAG_INVALID_def TAG_MIN_def TAG_MAX_def TAG_OPEN_def TAG_BOX_def TAG_REF_def
  TAG_FUNCTION_def TAG_BIGINT_def TAG_STRING_SMALL_def TAG_STRING_def TAG_BYTES_def
  TAG_VECTOR_SMALL_def TAG_VECTOR_def TAG_INT64_def TAG_INT32_def TAG_DOUBLE_def
  TAG_FLOAT_def TAG_CPTR_RAW_def TAG_STRING_RAW_def TAG_BYTES_RAW_def TAG_LAST_def


subsection \<open>The header of a heap block\<close>

text \<open>
  \<^verbatim>\<open>struct header_s\<close>: a 32-bit reference count, a 16-bit tag, an 8-bit count of the
  fields to scan, and the one-bit flag \<^verbatim>\<open>thread_shared\<close>.
\<close>

record header_t =
  refcount :: "32 word"
  tag :: "16 word"
  scan_fsize :: "8 word"
  thread_shared :: bool

definition SCAN_FSIZE_MAX :: size_t where
  "SCAN_FSIZE_MAX = 255"

text \<open>The macros \<^verbatim>\<open>HEADER(scan_fsize,tag)\<close> and \<^verbatim>\<open>HEADER_STATIC(scan_fsize,tag)\<close>.\<close>

definition HEADER :: "8 word \<Rightarrow> 16 word \<Rightarrow> header_t" where
  "HEADER sfsize tg = \<lparr>refcount = 0, tag = tg, scan_fsize = sfsize, thread_shared = False\<rparr>"

definition HEADER_STATIC :: "8 word \<Rightarrow> 16 word \<Rightarrow> header_t" where
  "HEADER_STATIC sfsize tg =
     \<lparr>refcount = 0xFF00, tag = tg, scan_fsize = sfsize, thread_shared = False\<rparr>"

subsection \<open>Boxed values\<close>

text \<open>
  Modelled from the spec: \<^verbatim>\<open>box_enum\<close>, declared in \<^verbatim>\<open>runtime.h\<close> and defined in
  \<^verbatim>\<open>runtime/box.h\<close>, which is not among the sources. The spec (4.1) has direct scalars
  boxed "by shifting left and OR-ing a tag pattern no valid pointer can have"; the macro
  \<^verbatim>\<open>value_tag(tag)\<close> of \<^verbatim>\<open>runtime.h\<close>, which its comment gives as the inlined
  \<^verbatim>\<open>box_enum(tag)\<close>, fixes the shift and the pattern: \<^verbatim>\<open>((uintx_t)tag << 2) | 0x03\<close>.
\<close>

definition box_enum :: "uintx_t \<Rightarrow> box_t" where
  "box_enum u = push_bit 2 u OR 3"

text \<open>
  Modelled from the spec: \<^verbatim>\<open>unbox_enum\<close> of \<^verbatim>\<open>runtime/box.h\<close> (not among the sources).
  The spec (4.1) has \<^verbatim>\<open>unbox\<close> total, branch-free and the inverse of \<^verbatim>\<open>box\<close> on the
  values \<^verbatim>\<open>box\<close> produced: the shift undone.
\<close>

definition unbox_enum :: "box_t \<Rightarrow> uintx_t" where
  "unbox_enum v = drop_bit 2 v"

text \<open>
  Modelled from the spec: \<^verbatim>\<open>box_ptr\<close> of \<^verbatim>\<open>runtime/box.h\<close> (not among the sources).
  The spec (4.1): "Pointers box as themselves".
\<close>

definition box_ptr :: "ptr_t \<Rightarrow> box_t" where
  "box_ptr p = p"

text \<open>
  Modelled from the spec: \<^verbatim>\<open>unbox_ptr\<close> of \<^verbatim>\<open>runtime/box.h\<close> (not among the sources),
  the inverse of \<^verbatim>\<open>box_ptr\<close>.
\<close>

definition unbox_ptr :: "box_t \<Rightarrow> ptr_t" where
  "unbox_ptr v = v"

subsection \<open>Blocks and the heap\<close>

text \<open>
  A heap block is a header followed by boxed fields and further raw bytes. The payload is
  modelled in units of \<^verbatim>\<open>box_t\<close>: \<open>payload blk i\<close> is the \<open>i\<close>-th word after the header.
  The structs that extend \<^verbatim>\<open>block_t\<close> lay their members over these words:
  \<^verbatim>\<open>block_large_s.large_scan_fsize\<close> is word 0; \<^verbatim>\<open>vector_small_s.length\<close> is word 0 and
  \<^verbatim>\<open>vec[i]\<close> word \<open>1 + i\<close>; \<^verbatim>\<open>vector_large_s.length\<close> is word 1 (after
  \<^verbatim>\<open>large_scan_fsize\<close>) and \<^verbatim>\<open>vec[i]\<close> word \<open>2 + i\<close>.
\<close>

record block_t =
  header :: header_t
  payload :: "nat \<Rightarrow> box_t"

text \<open>The heap maps the address of every live block to its contents.\<close>

type_synonym heap = "ptr_t \<Rightarrow> block_t option"

subsection \<open>What \<^verbatim>\<open>runtime.h\<close> takes from elsewhere\<close>

text \<open>
  \<^verbatim>\<open>runtime.h\<close> declares but does not define the following; they are parameters of the
  model, and every theorem below holds for all values of them unless it says otherwise.
  \<^item> \<open>assertions\<close>: whether the macro \<^verbatim>\<open>assert_internal\<close> (of \<^verbatim>\<open>runtime/platform.h\<close>)
    checks its condition, as in a debug build, or expands to nothing;
  \<^item> \<open>orphan_null_global\<close>: the address of \<^verbatim>\<open>extern struct orphan_s _orphan_null\<close>;
  \<^item> \<open>vector_empty\<close>: the value of \<^verbatim>\<open>extern vector_t vector_empty\<close>;
  \<^item> \<open>box_null\<close>: the constant \<^verbatim>\<open>box_null\<close> of \<^verbatim>\<open>runtime/box.h\<close>;
  \<^item> \<open>malloc\<close>: the C library's allocator, which returns an address and the heap with the
    new storage in it;
  \<^item> \<open>block_check_free\<close> and \<open>dup_block_check\<close>: the slow paths of \<^verbatim>\<open>refcount.c\<close>;
  \<^item> \<open>drop_boxed\<close>: the release of a boxed value, of \<^verbatim>\<open>runtime/box.h\<close>.
\<close>

record externals =
  assertions :: bool
  orphan_null_global :: ptr_t
  vector_empty :: ptr_t
  box_null :: box_t
  malloc :: "size_t \<Rightarrow> heap \<Rightarrow> ptr_t \<times> heap"
  block_check_free :: "ptr_t \<Rightarrow> heap \<Rightarrow> error + heap"
  dup_block_check :: "ptr_t \<Rightarrow> heap \<Rightarrow> error + ptr_t \<times> heap"
  drop_boxed :: "box_t \<Rightarrow> heap \<Rightarrow> error + heap"

text \<open>
  \<^verbatim>\<open>assert_internal(c)\<close>: when assertions are compiled in, the condition is evaluated
  (which may itself read through a pointer) and the run stops if it is false; otherwise
  the condition is not evaluated at all.
\<close>

definition assert_internal :: "externals \<Rightarrow> (error + bool) \<Rightarrow> error + unit" where
  "assert_internal X c =
     (if assertions X
      then (case c of Inl e \<Rightarrow> Inl e
            | Inr ok \<Rightarrow> if ok then Inr () else Inl Assertion_failed)
      else Inr ())"

section \<open>Blocks\<close>

definition block_tag :: "ptr_t \<Rightarrow> heap \<Rightarrow> error + tag_t" where
  "block_tag b s =
     (case s b of None \<Rightarrow> Inl Invalid_pointer
      | Some blk \<Rightarrow> Inr (uint (tag (header blk))))"

definition block_scan_fsize :: "ptr_t \<Rightarrow> heap \<Rightarrow> error + size_t" where
  "block_scan_fsize b s =
     (case s b of None \<Rightarrow> Inl Invalid_pointer
      | Some blk \<Rightarrow>
          (let sfsize = (ucast (scan_fsize (header blk)) :: size_t)
           in if sfsize \<noteq> SCAN_FSIZE_MAX then Inr sfsize
              else Inr (unbox_enum (payload blk 0))))"

definition block_refcount :: "ptr_t \<Rightarrow> heap \<Rightarrow> error + uintptr_t" where
  "block_refcount b s =
     (case s b of None \<Rightarrow> Inl Invalid_pointer
      | Some blk \<Rightarrow> Inr (ucast (refcount (header blk))))"

definition block_is_unique :: "ptr_t \<Rightarrow> heap \<Rightarrow> error + bool" where
  "block_is_unique b s =
     (case s b of None \<Rightarrow> Inl Invalid_pointer
      | Some blk \<Rightarrow> Inr (refcount (header blk) = 0))"

text \<open>The header stored at an address, if a block lives there.\<close>

definition header_at :: "ptr_t \<Rightarrow> heap \<Rightarrow> header_t option" where
  "header_at b s = map_option header (s b)"

text \<open>Reading and writing the \<open>i\<close>-th word after the header of the block at \<open>b\<close>.\<close>

definition load_field :: "ptr_t \<Rightarrow> nat \<Rightarrow> heap \<Rightarrow> error + box_t" where
  "load_field b i s =
     (case s b of None \<Rightarrow> Inl Invalid_pointer | Some blk \<Rightarrow> Inr (payload blk i))"

definition store_field :: "ptr_t \<Rightarrow> nat \<Rightarrow> box_t \<Rightarrow> heap \<Rightarrow> error + heap" where
  "store_field b i v s =
     (case s b of None \<Rightarrow> Inl Invalid_pointer
      | Some blk \<Rightarrow> Inr (s(b \<mapsto> blk\<lparr>payload := (payload blk)(i := v)\<rparr>)))"

section \<open>Allocation\<close>

definition runtime_malloc :: "externals \<Rightarrow> size_t \<Rightarrow> heap \<Rightarrow> ptr_t \<times> heap" where
  "runtime_malloc X sz s = malloc X sz s"

text \<open>
  \<^verbatim>\<open>block_init\<close>: the header is built from \<^verbatim>\<open>{ 0 }\<close> with the tag cast to 16 and the
  scan size cast to 8 bits, and written over the block's header. \<^verbatim>\<open>size\<close> is unused.
\<close>

definition block_init :: "externals \<Rightarrow> ptr_t \<Rightarrow> size_t \<Rightarrow> size_t \<Rightarrow> tag_t \<Rightarrow> heap \<Rightarrow> error + heap" where
  "block_init X b sz sfsize tg s =
     (case assert_internal X (Inr (sfsize < SCAN_FSIZE_MAX)) of Inl e \<Rightarrow> Inl e
      | Inr _ \<Rightarrow>
          (case s b of None \<Rightarrow> Inl Invalid_pointer
           | Some blk \<Rightarrow>
               Inr (s(b \<mapsto> blk\<lparr>header :=
                      \<lparr>refcount = 0, tag = word_of_int tg, scan_fsize = ucast sfsize,
                       thread_shared = False\<rparr>\<rparr>))))"

definition block_large_init :: "ptr_t \<Rightarrow> size_t \<Rightarrow> size_t \<Rightarrow> tag_t \<Rightarrow> heap \<Rightarrow> error + heap" where
  "block_large_init b sz sfsize tg s =
     (case s b of None \<Rightarrow> Inl Invalid_pointer
      | Some blk \<Rightarrow>
          Inr (s(b \<mapsto> blk\<lparr>header :=
                   \<lparr>refcount = 0, tag = word_of_int tg, scan_fsize = ucast SCAN_FSIZE_MAX,
                    thread_shared = False\<rparr>,
                 payload := (payload blk)(0 := box_enum sfsize)\<rparr>)))"

definition block_alloc :: "externals \<Rightarrow> size_t \<Rightarrow> size_t \<Rightarrow> tag_t \<Rightarrow> heap \<Rightarrow> error + ptr_t \<times> heap" where
  "block_alloc X sz sfsize tg s =
     (case assert_internal X (Inr (sfsize < SCAN_FSIZE_MAX)) of Inl e \<Rightarrow> Inl e
      | Inr _ \<Rightarrow>
          (case runtime_malloc X sz s of
             (b, s1) \<Rightarrow>
               (case block_init X b sz sfsize tg s1 of Inl e \<Rightarrow> Inl e
                | Inr s2 \<Rightarrow> Inr (b, s2))))"

definition block_large_alloc :: "externals \<Rightarrow> size_t \<Rightarrow> size_t \<Rightarrow> tag_t \<Rightarrow> heap \<Rightarrow> error + ptr_t \<times> heap" where
  "block_large_alloc X sz sfsize tg s =
     (case runtime_malloc X (sz + 1) s of
        (b, s1) \<Rightarrow>
          (case block_large_init b sz sfsize tg s1 of Inl e \<Rightarrow> Inl e
           | Inr s2 \<Rightarrow> Inr (b, s2)))"

text \<open>\<^verbatim>\<open>_block_as_assert\<close>, behind the macros \<^verbatim>\<open>block_as\<close> and \<^verbatim>\<open>datatype_as\<close>.\<close>

definition block_as_assert :: "externals \<Rightarrow> ptr_t \<Rightarrow> tag_t \<Rightarrow> heap \<Rightarrow> error + ptr_t" where
  "block_as_assert X b tg s =
     (case assert_internal X
             (case block_tag b s of Inl e \<Rightarrow> Inl e | Inr t \<Rightarrow> Inr (t = tg)) of
        Inl e \<Rightarrow> Inl e
      | Inr _ \<Rightarrow> Inr b)"

section \<open>Reference counting\<close>

text \<open>
  \<^verbatim>\<open>dup_block\<close> and \<^verbatim>\<open>drop_block\<close> test the count read as \<^verbatim>\<open>int32_t\<close> and either adjust
  the stored count or call the slow path of \<^verbatim>\<open>refcount.c\<close>.
\<close>

definition dup_block :: "externals \<Rightarrow> ptr_t \<Rightarrow> heap \<Rightarrow> error + ptr_t \<times> heap" where
  "dup_block X b s =
     (case s b of None \<Rightarrow> Inl Invalid_pointer
      | Some blk \<Rightarrow>
          (let rc = refcount (header blk)
           in if sint rc < 0 then dup_block_check X b s
              else Inr (b, s(b \<mapsto> blk\<lparr>header := (header blk)\<lparr>refcount := rc + 1\<rparr>\<rparr>))))"

definition drop_block :: "externals \<Rightarrow> ptr_t \<Rightarrow> heap \<Rightarrow> error + heap" where
  "drop_block X b s =
     (case s b of None \<Rightarrow> Inl Invalid_pointer
      | Some blk \<Rightarrow>
          (let rc = refcount (header blk)
           in if sint rc \<le> 0 then block_check_free X b s
              else Inr (s(b \<mapsto> blk\<lparr>header := (header blk)\<lparr>refcount := rc - 1\<rparr>\<rparr>))))"

text \<open>A \<^verbatim>\<open>dup_block\<close> followed by a \<^verbatim>\<open>drop_block\<close> of the pointer it returned.\<close>

definition dup_then_drop :: "externals \<Rightarrow> ptr_t \<Rightarrow> heap \<Rightarrow> error + heap" where
  "dup_then_drop X b s =
     (case dup_block X b s of Inl e \<Rightarrow> Inl e | Inr (p, s1) \<Rightarrow> drop_block X p s1)"

text \<open>\<open>n\<close> calls of \<^verbatim>\<open>dup_block\<close>, respectively \<^verbatim>\<open>drop_block\<close>, in a row on one block.\<close>

fun dup_times :: "externals \<Rightarrow> nat \<Rightarrow> ptr_t \<Rightarrow> heap \<Rightarrow> error + heap" where
  "dup_times X 0 b s = Inr s"
| "dup_times X (Suc n) b s =
     (case dup_block X b s of Inl e \<Rightarrow> Inl e | Inr (p, s1) \<Rightarrow> dup_times X n p s1)"

fun drop_times :: "externals \<Rightarrow> nat \<Rightarrow> ptr_t \<Rightarrow> heap \<Rightarrow> error + heap" where
  "drop_times X 0 b s = Inr s"
| "drop_times X (Suc n) b s =
     (case drop_block X b s of Inl e \<Rightarrow> Inl e | Inr s1 \<Rightarrow> drop_times X n b s1)"

text \<open>The heap \<open>s\<close> with the stored count of the block at \<open>b\<close> replaced by \<open>rc\<close>.\<close>

definition with_refcount :: "heap \<Rightarrow> ptr_t \<Rightarrow> 32 word \<Rightarrow> heap" where
  "with_refcount s b rc =
     (case s b of None \<Rightarrow> s
      | Some blk \<Rightarrow> s(b \<mapsto> blk\<lparr>header := (header blk)\<lparr>refcount := rc\<rparr>\<rparr>))"

section \<open>Orphans: reuse of the storage of a unique scrutinee\<close>

definition orphan_null :: "externals \<Rightarrow> ptr_t" where
  "orphan_null X = orphan_null_global X"

text \<open>\<^verbatim>\<open>orphan_block\<close>: \<^verbatim>\<open>memset\<close> sets every byte of the header to zero.\<close>

definition orphan_block :: "ptr_t \<Rightarrow> heap \<Rightarrow> error + ptr_t \<times> heap" where
  "orphan_block b s =
     (case s b of None \<Rightarrow> Inl Invalid_pointer
      | Some blk \<Rightarrow>
          Inr (b, s(b \<mapsto> blk\<lparr>header :=
                     \<lparr>refcount = 0, tag = 0, scan_fsize = 0, thread_shared = False\<rparr>\<rparr>)))"

definition block_release0 :: "externals \<Rightarrow> ptr_t \<Rightarrow> heap \<Rightarrow> error + ptr_t \<times> heap" where
  "block_release0 X b s =
     (case block_is_unique b s of Inl e \<Rightarrow> Inl e
      | Inr u \<Rightarrow>
          if u then orphan_block b s
          else (case drop_block X b s of Inl e \<Rightarrow> Inl e
                | Inr s1 \<Rightarrow> Inr (orphan_null X, s1)))"

definition block_release1 :: "externals \<Rightarrow> ptr_t \<Rightarrow> box_t \<Rightarrow> heap \<Rightarrow> error + ptr_t \<times> heap" where
  "block_release1 X b unused_field1 s =
     (case block_is_unique b s of Inl e \<Rightarrow> Inl e
      | Inr u \<Rightarrow>
          if u then (case drop_boxed X unused_field1 s of Inl e \<Rightarrow> Inl e
                     | Inr s1 \<Rightarrow> orphan_block b s1)
          else (case drop_block X b s of Inl e \<Rightarrow> Inl e
                | Inr s1 \<Rightarrow> Inr (orphan_null X, s1)))"

text \<open>
  What \<^verbatim>\<open>block_alloc_reuse\<close> may be given: the sentinel, or a live block that is unique
  (an orphan made by \<^verbatim>\<open>orphan_block\<close> has a zeroed header, so its count is 0).
\<close>

definition is_orphan :: "externals \<Rightarrow> ptr_t \<Rightarrow> heap \<Rightarrow> bool" where
  "is_orphan X orphan s =
     (orphan = orphan_null X
      \<or> (case s orphan of None \<Rightarrow> False | Some blk \<Rightarrow> refcount (header blk) = 0))"

definition block_alloc_reuse ::
  "externals \<Rightarrow> ptr_t \<Rightarrow> size_t \<Rightarrow> size_t \<Rightarrow> tag_t \<Rightarrow> heap \<Rightarrow> error + ptr_t \<times> heap" where
  "block_alloc_reuse X orphan sz sfsize tg s =
     (case (if orphan \<noteq> orphan_null X
            then (case assert_internal X (block_is_unique orphan s) of Inl e \<Rightarrow> Inl e
                  | Inr _ \<Rightarrow> Inr (orphan, s))
            else Inr (runtime_malloc X sz s)) of
        Inl e \<Rightarrow> Inl e
      | Inr (b, s1) \<Rightarrow>
          (case block_init X b sz sfsize tg s1 of Inl e \<Rightarrow> Inl e
           | Inr s2 \<Rightarrow> Inr (b, s2)))"

section \<open>Vectors\<close>

text \<open>Sizes of the 64-bit layout: the header and a \<^verbatim>\<open>box_t\<close> take 8 bytes each.\<close>

definition sizeof_box_t :: size_t where
  "sizeof_box_t = 8"

definition sizeof_vector_small_s :: size_t where
  "sizeof_vector_small_s = 24"

definition sizeof_vector_large_s :: size_t where
  "sizeof_vector_large_s = 32"

definition dup_vector :: "externals \<Rightarrow> ptr_t \<Rightarrow> heap \<Rightarrow> error + ptr_t \<times> heap" where
  "dup_vector X v s = dup_block X v s"

text \<open>
  The loop \<^verbatim>\<open>for (size_t i = 0; i < length; i++) v->vec[i] = def;\<close> from its counter
  \<open>i\<close> on; \<open>base\<close> is the word at which \<^verbatim>\<open>vec\<close> starts.
\<close>

function vec_fill :: "ptr_t \<Rightarrow> nat \<Rightarrow> box_t \<Rightarrow> size_t \<Rightarrow> size_t \<Rightarrow> heap \<Rightarrow> error + heap" where
  "vec_fill v base dflt i len s =
     (if i < len
      then (case store_field v (base + unat i) dflt s of Inl e \<Rightarrow> Inl e
            | Inr s1 \<Rightarrow> vec_fill v base dflt (i + 1) len s1)
      else Inr s)"
  by pat_completeness auto
termination
proof (relation "measure (\<lambda>(v, base, dflt, i, len, s). unat len - unat i)")
  show "wf (measure (\<lambda>(v, base, dflt, i, len, s). unat len - unat i))"
    by simp
next
  fix v :: ptr_t and base :: nat and dflt :: box_t and i len :: size_t and s x2 :: heap
  assume less: "i < len"
  then have "unat i < unat len"
    by (simp add: word_less_nat_alt)
  moreover have "unat len < 2 ^ 64"
    using unsigned_less [of len, where 'a = nat] by simp
  ultimately have "unat i + unat (1 :: size_t) < 2 ^ LENGTH(64)"
    by simp
  then have "unat (i + 1) = unat i + unat (1 :: size_t)"
    by (simp only: unat_add_lem)
  with \<open>unat i < unat len\<close> show "((v, base, dflt, i + 1, len, x2), (v, base, dflt, i, len, s))
      \<in> measure (\<lambda>(v, base, dflt, i, len, s). unat len - unat i)"
    by simp
qed

definition vector_alloc :: "externals \<Rightarrow> size_t \<Rightarrow> box_t \<Rightarrow> heap \<Rightarrow> error + ptr_t \<times> heap" where
  "vector_alloc X len dflt s =
     (if len = 0 then dup_vector X (vector_empty X) s
      else if len < SCAN_FSIZE_MAX then
        (case block_alloc X (sizeof_vector_small_s + (len - 1) * sizeof_box_t) (1 + len)
                TAG_VECTOR_SMALL s of
           Inl e \<Rightarrow> Inl e
         | Inr (b, s1) \<Rightarrow>
             (case block_as_assert X b TAG_VECTOR_SMALL s1 of Inl e \<Rightarrow> Inl e
              | Inr v \<Rightarrow>
                  (case store_field v 0 (box_enum len) s1 of Inl e \<Rightarrow> Inl e
                   | Inr s2 \<Rightarrow>
                       (case (if dflt \<noteq> box_null X then vec_fill v 1 dflt 0 len s2
                              else Inr s2) of
                          Inl e \<Rightarrow> Inl e
                        | Inr s3 \<Rightarrow> Inr (v, s3)))))
      else
        (case block_large_alloc X (sizeof_vector_large_s + (len - 1) * sizeof_box_t)
                (1 + len) TAG_VECTOR s of
           Inl e \<Rightarrow> Inl e
         | Inr (v, s1) \<Rightarrow>
             (case store_field v 1 (box_enum len) s1 of Inl e \<Rightarrow> Inl e
              | Inr s2 \<Rightarrow>
                  (case (if dflt \<noteq> box_null X then vec_fill v 2 dflt 0 len s2
                         else Inr s2) of
                     Inl e \<Rightarrow> Inl e
                   | Inr s3 \<Rightarrow> Inr (v, s3)))))"

definition vector_len :: "externals \<Rightarrow> ptr_t \<Rightarrow> heap \<Rightarrow> error + size_t" where
  "vector_len X v s =
     (case block_tag v s of Inl e \<Rightarrow> Inl e
      | Inr t \<Rightarrow>
          if t = TAG_VECTOR_SMALL then
            (case block_as_assert X v TAG_VECTOR_SMALL s of Inl e \<Rightarrow> Inl e
             | Inr p \<Rightarrow>
                 (case load_field p 0 s of Inl e \<Rightarrow> Inl e
                  | Inr l \<Rightarrow> Inr (unbox_enum l)))
          else
            (case block_as_assert X v TAG_VECTOR s of Inl e \<Rightarrow> Inl e
             | Inr p \<Rightarrow>
                 (case load_field p 1 s of Inl e \<Rightarrow> Inl e
                  | Inr l \<Rightarrow> Inr (unbox_enum l))))"

text \<open>
  \<^verbatim>\<open>box_vector_t\<close> evaluates \<^verbatim>\<open>box_ptr(&v->_block)\<close> as an expression statement and
  reaches the closing brace of its body: the function has no \<^verbatim>\<open>return\<close>, so no value
  reaches its caller.
\<close>

definition box_vector_t :: "ptr_t \<Rightarrow> error + box_t" where
  "box_vector_t v = (let discarded = box_ptr v in Inl No_return_value)"

definition unbox_vector_t :: "externals \<Rightarrow> box_t \<Rightarrow> heap \<Rightarrow> error + ptr_t" where
  "unbox_vector_t X v s =
     (let b = unbox_ptr v
      in case assert_internal X
                (case block_tag b s of Inl e \<Rightarrow> Inl e
                 | Inr t \<Rightarrow> Inr (t = TAG_VECTOR_SMALL \<or> t = TAG_VECTOR)) of
           Inl e \<Rightarrow> Inl e
         | Inr _ \<Rightarrow> Inr b)"

section \<open>Instances used to run the model\<close>

text \<open>
  An instance of the externals in which assertions are checked and every call into
  \<^verbatim>\<open>refcount.c\<close> or \<^verbatim>\<open>box.h\<close> stops the run with the name of the function called: a run
  that returns a result under it made no such call. Its allocator hands out the address
  \<^verbatim>\<open>0x1000\<close> with zeroed storage.
\<close>

definition zero_block :: block_t where
  "zero_block =
     \<lparr>header = \<lparr>refcount = 0, tag = 0, scan_fsize = 0, thread_shared = False\<rparr>,
      payload = (\<lambda>i. 0)\<rparr>"

definition halting :: externals where
  "halting =
     \<lparr>assertions = True,
      orphan_null_global = 0x10,
      vector_empty = 0x20,
      box_null = 0,
      malloc = (\<lambda>sz s. (0x1000, s(0x1000 \<mapsto> zero_block))),
      block_check_free = (\<lambda>b s. Inl (External ''block_check_free'')),
      dup_block_check = (\<lambda>b s. Inl (External ''dup_block_check'')),
      drop_boxed = (\<lambda>v s. Inl (External ''drop_boxed''))\<rparr>"

text \<open>The heap that holds one block, at address \<^verbatim>\<open>0x100\<close>, with the given header.\<close>

definition one_block :: "header_t \<Rightarrow> heap" where
  "one_block h = Map.empty(0x100 \<mapsto> \<lparr>header = h, payload = (\<lambda>i. 0)\<rparr>)"

section \<open>Facts about machine words\<close>

lemma sint_of_nat_small: "n < 2 ^ 31 \<Longrightarrow> sint (of_nat n :: 32 word) = int n"
proof -
  assume "n < 2 ^ 31"
  then have "int n < 2 ^ 31" by simp
  then have "signed_take_bit 31 (int n) = int n"
    by (simp add: signed_take_bit_int_eq_self)
  then show ?thesis
    using sint_sbintrunc' [of "int n", where 'a = 32] by simp
qed

lemma sint_succ_32:
  fixes rc :: "32 word"
  assumes nonneg: "0 \<le> sint rc" and below: "rc \<noteq> 0x7FFFFFFF"
  shows "sint (rc + 1) = sint rc + 1"
proof -
  have "sint rc < 2 ^ 31"
    using sint_lt [of rc] by simp
  moreover have "sint rc \<noteq> 2 ^ 31 - 1"
  proof
    assume "sint rc = 2 ^ 31 - 1"
    then have "word_of_int (sint rc) = (word_of_int (2 ^ 31 - 1) :: 32 word)"
      by simp
    then have "rc = 0x7FFFFFFF" by simp
    with below show False by simp
  qed
  ultimately have "sint rc + 1 < 2 ^ 31" by simp
  with nonneg have "signed_take_bit 31 (sint rc + 1) = sint rc + 1"
    by (simp add: signed_take_bit_int_eq_self)
  then show ?thesis
    using sint_word_add [of rc 1] by simp
qed

lemma unbox_box_enum: "n < 2 ^ 62 \<Longrightarrow> unbox_enum (box_enum n) = n"
proof -
  assume small: "n < 2 ^ 62"
  then have un: "unat n < 2 ^ 62"
    by (simp add: word_less_nat_alt)
  have up: "\<not> bit n k" if "62 \<le> k" for k
  proof -
    from that have "(2::nat) ^ 62 \<le> 2 ^ k"
      by (rule power_increasing) simp_all
    with un have "unat n < 2 ^ k" by (rule less_le_trans)
    then have "unat n div 2 ^ k = 0" by simp
    then have "\<not> bit (unat n) k"
      by (simp add: bit_iff_odd)
    then show ?thesis
      by (simp add: bit_unsigned_iff)
  qed
  show ?thesis
    unfolding unbox_enum_def box_enum_def
  proof (rule bit_word_eqI)
    fix k assume "k < LENGTH(64)"
    then show "bit (drop_bit 2 (push_bit 2 n OR 3)) k = bit n k"
      using up [of k] by (cases "k < 62") (auto simp: bit_simps)
  qed
qed

lemma uint_tag: "0 \<le> tg \<Longrightarrow> tg < 65536 \<Longrightarrow> uint (word_of_int tg :: 16 word) = tg"
  by (simp add: uint_word_of_int)

lemma ucast_8_64_eq_255: "((ucast (x :: 8 word) :: 64 word) = 255) = (x = 255)"
proof
  assume "(ucast x :: 64 word) = 255"
  then have "(ucast (ucast x :: 64 word) :: 8 word) = ucast (255 :: 64 word)" by simp
  moreover have "(ucast (ucast x :: 64 word) :: 8 word) = x"
    by (rule ucast_up_ucast_id) (simp add: is_up)
  ultimately show "x = 255" by simp
next
  assume "x = 255"
  then show "(ucast x :: 64 word) = 255" by simp
qed

lemma ucast_64_8_64:
  assumes "sfsize < (255 :: 64 word)"
  shows "(ucast (ucast sfsize :: 8 word) :: 64 word) = sfsize"
proof -
  from assms have small: "unat sfsize < 2 ^ 8"
    by (simp add: word_less_nat_alt)
  have "unat (take_bit 8 sfsize) = take_bit 8 (unat sfsize)"
    by (rule unsigned_take_bit_eq)
  also from small have "\<dots> = unat sfsize"
    by (rule take_bit_nat_eq_self)
  finally have "take_bit 8 sfsize = sfsize"
    by (rule word_unat_eq_iff [THEN iffD2])
  moreover have "(ucast (ucast sfsize :: 8 word) :: 64 word) = take_bit 8 sfsize"
    by (rule bit_word_eqI) (auto simp: bit_simps)
  ultimately show ?thesis
    by simp
qed

section \<open>The fast paths of \<^verbatim>\<open>dup_block\<close> and \<^verbatim>\<open>drop_block\<close>\<close>

text \<open>
  Claim C7. \<^verbatim>\<open>dup_block\<close> and \<^verbatim>\<open>drop_block\<close> choose between the plain path and the slow
  path by one test of the count read as a signed 32-bit value. On a live block,
  \<^verbatim>\<open>dup_block\<close> stores the count plus one and returns the pointer it was given whenever
  the count reads nonnegative, and returns whatever \<^verbatim>\<open>dup_block_check\<close> returns exactly
  when it reads negative; \<^verbatim>\<open>drop_block\<close> stores the count minus one whenever the count
  reads strictly positive, and does whatever \<^verbatim>\<open>block_check_free\<close> does exactly when it
  reads zero or less. The plain results do not depend on the externals, so no call is
  made on those paths; under the externals that stop at every call, the run stops in
  \<^verbatim>\<open>dup_block_check\<close> (in \<^verbatim>\<open>block_check_free\<close>) if and only if the count reads negative
  (zero or less).
\<close>

theorem dup_drop_sign_test:
  assumes "s b = Some blk"
  shows "(0 \<le> sint (refcount (header blk)) \<longrightarrow>
            dup_block X b s =
              Inr (b, s(b \<mapsto> blk\<lparr>header :=
                        (header blk)\<lparr>refcount := refcount (header blk) + 1\<rparr>\<rparr>)))
       \<and> (sint (refcount (header blk)) < 0 \<longrightarrow>
            dup_block X b s = dup_block_check X b s)
       \<and> (0 < sint (refcount (header blk)) \<longrightarrow>
            drop_block X b s =
              Inr (s(b \<mapsto> blk\<lparr>header :=
                       (header blk)\<lparr>refcount := refcount (header blk) - 1\<rparr>\<rparr>)))
       \<and> (sint (refcount (header blk)) \<le> 0 \<longrightarrow>
            drop_block X b s = block_check_free X b s)
       \<and> (dup_block halting b s = Inl (External ''dup_block_check''))
            = (sint (refcount (header blk)) < 0)
       \<and> (drop_block halting b s = Inl (External ''block_check_free''))
            = (sint (refcount (header blk)) \<le> 0)"
  using assms by (simp add: dup_block_def drop_block_def Let_def halting_def)

theorem dup_drop_sign_test_witness:
  "dup_block halting 0x100 (one_block (HEADER 0 7\<lparr>refcount := 5\<rparr>))
     = Inr (0x100, one_block (HEADER 0 7\<lparr>refcount := 6\<rparr>))
   \<and> drop_block halting 0x100 (one_block (HEADER 0 7\<lparr>refcount := 5\<rparr>))
     = Inr (one_block (HEADER 0 7\<lparr>refcount := 4\<rparr>))
   \<and> drop_block halting 0x100 (one_block (HEADER 0 7))
     = Inl (External ''block_check_free'')
   \<and> dup_block halting 0x100 (one_block (HEADER 0 7\<lparr>refcount := 0x80000001\<rparr>))
     = Inl (External ''dup_block_check'')
   \<and> drop_block halting 0x100 (one_block (HEADER 0 7\<lparr>refcount := 0x80000001\<rparr>))
     = Inl (External ''block_check_free'')"
  using
    dup_drop_sign_test [of "one_block (HEADER 0 7\<lparr>refcount := 5\<rparr>)" "0x100"
      "\<lparr>header = HEADER 0 7\<lparr>refcount := 5\<rparr>, payload = (\<lambda>i. 0)\<rparr>" halting]
    dup_drop_sign_test [of "one_block (HEADER 0 7)" "0x100"
      "\<lparr>header = HEADER 0 7, payload = (\<lambda>i. 0)\<rparr>" halting]
    dup_drop_sign_test [of "one_block (HEADER 0 7\<lparr>refcount := 0x80000001\<rparr>)" "0x100"
      "\<lparr>header = HEADER 0 7\<lparr>refcount := 0x80000001\<rparr>, payload = (\<lambda>i. 0)\<rparr>" halting]
  by (simp add: one_block_def HEADER_def halting_def)

section \<open>A dup followed by a drop\<close>

text \<open>
  What \<^verbatim>\<open>runtime.h\<close> itself settles about a \<^verbatim>\<open>dup_block\<close> followed by a \<^verbatim>\<open>drop_block\<close>
  on a live block whose stored count reads nonnegative. If the count is not
  \<^verbatim>\<open>0x7FFFFFFF\<close> (a count from 0 to \<open>2^31 - 2\<close>), the pair returns the heap it started
  from, whatever the externals do: count, tag, scan size, thread-shared flag and all
  else are as before. If the count is \<^verbatim>\<open>0x7FFFFFFF\<close>, \<^verbatim>\<open>dup_block\<close> stores
  \<^verbatim>\<open>0x80000000\<close>, which reads negative, and the result of the pair is the result of
  \<^verbatim>\<open>block_check_free\<close> on the block with that count: whether the count is put back
  there is decided in \<^verbatim>\<open>refcount.c\<close>, not in \<^verbatim>\<open>runtime.h\<close>.
\<close>

theorem dup_then_drop_plain_range:
  assumes live: "s b = Some blk"
    and nonneg: "0 \<le> sint (refcount (header blk))"
  shows "(refcount (header blk) \<noteq> 0x7FFFFFFF \<longrightarrow> dup_then_drop X b s = Inr s)
       \<and> (refcount (header blk) = 0x7FFFFFFF \<longrightarrow>
            dup_then_drop X b s = block_check_free X b (with_refcount s b 0x80000000))"
proof (intro conjI impI)
  let ?rc = "refcount (header blk)"
  let ?s1 = "s(b \<mapsto> blk\<lparr>header := (header blk)\<lparr>refcount := ?rc + 1\<rparr>\<rparr>)"
  have dup: "dup_block X b s = Inr (b, ?s1)"
    using live nonneg by (simp add: dup_block_def Let_def)
  {
    assume below: "?rc \<noteq> 0x7FFFFFFF"
    have up: "sint (?rc + 1) = sint ?rc + 1"
      using nonneg below by (rule sint_succ_32)
    have same: "s(b \<mapsto> blk) = s"
      using live by (rule map_upd_triv)
    have "drop_block X b ?s1 = Inr (s(b \<mapsto> blk))"
      using nonneg up by (simp add: drop_block_def Let_def)
    then have drop: "drop_block X b ?s1 = Inr s"
      by (simp only: same)
    show "dup_then_drop X b s = Inr s"
      using dup drop by (simp add: dup_then_drop_def)
  next
    assume top: "?rc = 0x7FFFFFFF"
    then have wrapped: "?s1 = with_refcount s b 0x80000000"
      using live by (simp add: with_refcount_def)
    have "drop_block X b ?s1 = block_check_free X b ?s1"
      using top by (simp add: drop_block_def)
    then show "dup_then_drop X b s = block_check_free X b (with_refcount s b 0x80000000)"
      using dup wrapped by (simp add: dup_then_drop_def)
  }
qed

theorem dup_then_drop_plain_range_witness:
  "dup_then_drop halting 0x100 (one_block (HEADER 3 7)) = Inr (one_block (HEADER 3 7))
   \<and> dup_then_drop halting 0x100 (one_block (HEADER 3 7\<lparr>refcount := 0x7FFFFFFE\<rparr>))
       = Inr (one_block (HEADER 3 7\<lparr>refcount := 0x7FFFFFFE\<rparr>))
   \<and> dup_then_drop halting 0x100 (one_block (HEADER 3 7\<lparr>refcount := 0x7FFFFFFF\<rparr>))
       = block_check_free halting 0x100 (one_block (HEADER 3 7\<lparr>refcount := 0x80000000\<rparr>))"
  using
    dup_then_drop_plain_range [of "one_block (HEADER 3 7)" "0x100"
      "\<lparr>header = HEADER 3 7, payload = (\<lambda>i. 0)\<rparr>" halting]
    dup_then_drop_plain_range [of "one_block (HEADER 3 7\<lparr>refcount := 0x7FFFFFFE\<rparr>)" "0x100"
      "\<lparr>header = HEADER 3 7\<lparr>refcount := 0x7FFFFFFE\<rparr>, payload = (\<lambda>i. 0)\<rparr>" halting]
    dup_then_drop_plain_range [of "one_block (HEADER 3 7\<lparr>refcount := 0x7FFFFFFF\<rparr>)" "0x100"
      "\<lparr>header = HEADER 3 7\<lparr>refcount := 0x7FFFFFFF\<rparr>, payload = (\<lambda>i. 0)\<rparr>" halting]
  by (simp add: one_block_def HEADER_def with_refcount_def)

section \<open>Charge conservation\<close>

lemma with_refcount_lookup:
  "s b = Some blk \<Longrightarrow>
     with_refcount s b n b = Some (blk\<lparr>header := (header blk)\<lparr>refcount := n\<rparr>\<rparr>)"
  by (simp add: with_refcount_def)

lemma with_refcount_same:
  "s b = Some blk \<Longrightarrow> refcount (header blk) = n \<Longrightarrow> with_refcount s b n = s"
  by (auto simp: with_refcount_def)

lemma dup_block_counted:
  assumes "s b = Some blk" and "m < 2 ^ 31"
  shows "dup_block X b (with_refcount s b (of_nat m))
           = Inr (b, with_refcount s b (of_nat (Suc m)))"
  using assms
  by (simp add: dup_block_def Let_def with_refcount_lookup sint_of_nat_small)
     (simp add: with_refcount_def add.commute)

lemma drop_block_counted:
  assumes "s b = Some blk" and "Suc m < 2 ^ 31"
  shows "drop_block X b (with_refcount s b (of_nat (Suc m)))
           = Inr (with_refcount s b (of_nat m))"
  using assms sint_of_nat_small [of "Suc m"]
  by (simp add: drop_block_def Let_def with_refcount_lookup del: of_nat_Suc)
     (simp add: with_refcount_def)

lemma dup_times_counted:
  assumes "s b = Some blk" and "m + n < 2 ^ 31"
  shows "dup_times X n b (with_refcount s b (of_nat m))
           = Inr (with_refcount s b (of_nat (m + n)))"
  using assms
proof (induction n arbitrary: m)
  case 0
  then show ?case by simp
next
  case (Suc n)
  from Suc.prems have "m < 2 ^ 31" and "Suc m + n < 2 ^ 31" by simp_all
  with Suc.prems(1) Suc.IH [of "Suc m"] show ?case
    by (simp add: dup_block_counted del: of_nat_Suc of_nat_add)
qed

lemma drop_times_counted:
  assumes "s b = Some blk" and "m + k < 2 ^ 31"
  shows "drop_times X k b (with_refcount s b (of_nat (m + k)))
           = Inr (with_refcount s b (of_nat m))"
  using assms
proof (induction k arbitrary: m)
  case 0
  then show ?case by simp
next
  case (Suc k)
  from Suc.prems have "Suc (m + k) < 2 ^ 31" and "m + k < 2 ^ 31" by simp_all
  with Suc.prems(1) Suc.IH [of m] show ?case
    by (simp add: drop_block_counted del: of_nat_Suc of_nat_add)
qed


text \<open>
  Claim C2. On a freshly allocated block (stored count 0) the first \<^verbatim>\<open>drop_block\<close> takes
  the free path: it does what \<^verbatim>\<open>block_check_free\<close> does and decrements nothing. After
  \<open>N\<close> calls of \<^verbatim>\<open>dup_block\<close>, with \<open>N < 2^31\<close> so that the count never reads
  negative, the stored count is \<open>N\<close>; each of the first \<open>N\<close> calls of \<^verbatim>\<open>drop_block\<close> then
  only lowers the stored count by one (after \<open>k < N\<close> of them it is \<open>N - k\<close>, and the next
  one stores \<open>N - k - 1\<close>), without any call of an external; after \<open>N\<close> of them the heap
  is the fresh one again, so it is the call number \<open>N + 1\<close> that takes the free path.
\<close>

theorem charge_conservation:
  assumes live: "s b = Some blk"
    and fresh: "refcount (header blk) = 0"
    and small: "N < 2 ^ 31"
  shows "drop_block X b s = block_check_free X b s
       \<and> dup_times X N b s = Inr (with_refcount s b (of_nat N))
       \<and> (\<forall>k<N. drop_times X k b (with_refcount s b (of_nat N))
                    = Inr (with_refcount s b (of_nat (N - k)))
                \<and> drop_block X b (with_refcount s b (of_nat (N - k)))
                    = Inr (with_refcount s b (of_nat (N - k) - 1)))
       \<and> drop_times X N b (with_refcount s b (of_nat N)) = Inr s"
proof -
  have zero: "with_refcount s b 0 = s"
    using live fresh by (simp add: with_refcount_same)
  have first: "drop_block X b s = block_check_free X b s"
    using live fresh by (simp add: drop_block_def)
  have dups: "dup_times X N b s = Inr (with_refcount s b (of_nat N))"
    using live small dup_times_counted [of s b blk 0 N X] by (simp add: zero)
  have drops: "drop_times X k b (with_refcount s b (of_nat N))
                 = Inr (with_refcount s b (of_nat (N - k)))" if "k \<le> N" for k
    using live small that drop_times_counted [of s b blk "N - k" k X] by simp
  have one: "drop_block X b (with_refcount s b (of_nat (N - k)))
               = Inr (with_refcount s b (of_nat (N - k) - 1))" if "k < N" for k
  proof -
    from that obtain m where m: "N - k = Suc m"
      by (cases "N - k") simp_all
    with small have "Suc m < 2 ^ 31" by arith
    with live have "drop_block X b (with_refcount s b (of_nat (Suc m)))
                      = Inr (with_refcount s b (of_nat m))"
      by (rule drop_block_counted)
    then show ?thesis
      by (simp add: m)
  qed
  from drops [of N] have last: "drop_times X N b (with_refcount s b (of_nat N)) = Inr s"
    by (simp add: zero)
  from first dups drops one last show ?thesis
    by simp
qed

theorem charge_conservation_witness:
  "dup_times halting 3 0x100 (one_block (HEADER 2 7))
      = Inr (one_block (HEADER 2 7\<lparr>refcount := 3\<rparr>))
   \<and> drop_times halting 2 0x100 (one_block (HEADER 2 7\<lparr>refcount := 3\<rparr>))
      = Inr (one_block (HEADER 2 7\<lparr>refcount := 1\<rparr>))
   \<and> drop_block halting 0x100 (one_block (HEADER 2 7\<lparr>refcount := 1\<rparr>))
      = Inr (one_block (HEADER 2 7))
   \<and> drop_times halting 3 0x100 (one_block (HEADER 2 7\<lparr>refcount := 3\<rparr>))
      = Inr (one_block (HEADER 2 7))
   \<and> drop_block halting 0x100 (one_block (HEADER 2 7)) = Inl (External ''block_check_free'')"
proof -
  let ?blk = "\<lparr>header = HEADER 2 7, payload = (\<lambda>i. 0)\<rparr>"
  have live: "one_block (HEADER 2 7) 0x100 = Some ?blk"
    by (simp add: one_block_def)
  have fresh: "refcount (header ?blk) = 0"
    by (simp add: HEADER_def)
  have small: "(3::nat) < 2 ^ 31"
    by simp
  have counted: "with_refcount (one_block (HEADER 2 7)) 0x100 rc
                   = one_block (HEADER 2 7\<lparr>refcount := rc\<rparr>)" for rc
    by (simp add: with_refcount_def one_block_def)
  note cc = charge_conservation [of "one_block (HEADER 2 7)" "0x100" ?blk 3 halting,
      OF live fresh small, unfolded counted]
  from cc have free_path: "drop_block halting 0x100 (one_block (HEADER 2 7))
      = Inl (External ''block_check_free'')"
    by (simp add: halting_def)
  from cc have dups: "dup_times halting 3 0x100 (one_block (HEADER 2 7))
      = Inr (one_block (HEADER 2 7\<lparr>refcount := 3\<rparr>))"
    by simp
  from cc have "\<forall>k<3. drop_times halting k 0x100 (one_block (HEADER 2 7\<lparr>refcount := 3\<rparr>))
           = Inr (one_block (HEADER 2 7\<lparr>refcount := of_nat (3 - k)\<rparr>))
         \<and> drop_block halting 0x100 (one_block (HEADER 2 7\<lparr>refcount := of_nat (3 - k)\<rparr>))
           = Inr (one_block (HEADER 2 7\<lparr>refcount := of_nat (3 - k) - 1\<rparr>))"
    by simp
  then have "drop_times halting 2 0x100 (one_block (HEADER 2 7\<lparr>refcount := 3\<rparr>))
           = Inr (one_block (HEADER 2 7\<lparr>refcount := of_nat (3 - 2)\<rparr>))
         \<and> drop_block halting 0x100 (one_block (HEADER 2 7\<lparr>refcount := of_nat (3 - 2)\<rparr>))
           = Inr (one_block (HEADER 2 7\<lparr>refcount := of_nat (3 - 2) - 1\<rparr>))"
    by (rule allE [where x = 2]) simp
  then have two: "drop_times halting 2 0x100 (one_block (HEADER 2 7\<lparr>refcount := 3\<rparr>))
           = Inr (one_block (HEADER 2 7\<lparr>refcount := 1\<rparr>))
         \<and> drop_block halting 0x100 (one_block (HEADER 2 7\<lparr>refcount := 1\<rparr>))
           = Inr (one_block (HEADER 2 7))"
    by (simp add: HEADER_def)
  from cc have three: "drop_times halting 3 0x100 (one_block (HEADER 2 7\<lparr>refcount := 3\<rparr>))
      = Inr (one_block (HEADER 2 7))"
    by simp
  from dups two three free_path show ?thesis
    by simp
qed

section \<open>Releasing a scrutinee\<close>

text \<open>
  Claim C5. On a live block \<open>b\<close>: if \<open>b\<close> is unique (stored count 0),
  \<^verbatim>\<open>block_release0\<close> sets the whole header to zero (count, tag, scan size and
  thread-shared flag), returns \<open>b\<close> itself as the orphan and frees nothing: the block is
  still in the heap, with its payload, and no external is called. If \<open>b\<close> is not unique,
  \<^verbatim>\<open>block_release0\<close> does an ordinary \<^verbatim>\<open>drop_block\<close> on \<open>b\<close> and returns the sentinel
  \<^verbatim>\<open>orphan_null()\<close>.
\<close>

theorem block_release0_unique_or_drop:
  assumes "s b = Some blk"
  shows "(refcount (header blk) = 0 \<longrightarrow>
            block_release0 X b s =
              Inr (b, s(b \<mapsto> blk\<lparr>header :=
                        \<lparr>refcount = 0, tag = 0, scan_fsize = 0, thread_shared = False\<rparr>\<rparr>)))
       \<and> (refcount (header blk) \<noteq> 0 \<longrightarrow>
            block_release0 X b s =
              (case drop_block X b s of Inl e \<Rightarrow> Inl e
               | Inr s1 \<Rightarrow> Inr (orphan_null X, s1)))"
  using assms by (simp add: block_release0_def block_is_unique_def orphan_block_def)

theorem block_release0_unique_or_drop_witness:
  "block_release0 halting 0x100 (one_block (HEADER 2 65003)) = Inr (0x100, one_block (HEADER 0 0))
   \<and> block_release0 halting 0x100 (one_block (HEADER 2 65003\<lparr>refcount := 1\<rparr>))
        = Inr (orphan_null halting, one_block (HEADER 2 65003))"
  using
    block_release0_unique_or_drop [of "one_block (HEADER 2 65003)" "0x100"
      "\<lparr>header = HEADER 2 65003, payload = (\<lambda>i. 0)\<rparr>" halting]
    block_release0_unique_or_drop [of "one_block (HEADER 2 65003\<lparr>refcount := 1\<rparr>)" "0x100"
      "\<lparr>header = HEADER 2 65003\<lparr>refcount := 1\<rparr>, payload = (\<lambda>i. 0)\<rparr>" halting]
  by (simp add: one_block_def HEADER_def drop_block_def)

text \<open>
  Claim C3, as amended. On a live block \<open>b\<close> with a boxed field value \<open>f\<close>:
  \<^verbatim>\<open>block_release1\<close> drops \<open>f\<close> exactly when \<open>b\<close> is unique. In that case it drops \<open>f\<close>
  first: if \<^verbatim>\<open>drop_boxed\<close> stops, so does \<^verbatim>\<open>block_release1\<close>, and if \<^verbatim>\<open>drop_boxed\<close>
  returns and \<open>b\<close> is still live, \<^verbatim>\<open>block_release1\<close> returns \<open>b\<close> itself as the orphan, in
  the heap \<^verbatim>\<open>drop_boxed\<close> left, with the whole header of \<open>b\<close> set to zero (count, tag,
  scan size, thread-shared flag) and its payload as it was. When \<open>b\<close> is not unique it
  does not touch \<open>f\<close> at all: it does an ordinary \<^verbatim>\<open>drop_block\<close> on \<open>b\<close> and returns the
  empty-orphan sentinel, exactly as \<^verbatim>\<open>block_release0\<close> does.
\<close>

theorem block_release1_drops_field_iff_unique:
  assumes "s b = Some blk"
  shows "(refcount (header blk) = 0 \<longrightarrow>
            block_release1 X b f s =
              (case drop_boxed X f s of Inl e \<Rightarrow> Inl e | Inr s1 \<Rightarrow> orphan_block b s1))
       \<and> (refcount (header blk) = 0 \<and> drop_boxed X f s = Inl e \<longrightarrow>
            block_release1 X b f s = Inl e)
       \<and> (refcount (header blk) = 0 \<and> drop_boxed X f s = Inr s1 \<and> s1 b = Some blk1 \<longrightarrow>
            block_release1 X b f s =
              Inr (b, s1(b \<mapsto> blk1\<lparr>header :=
                         \<lparr>refcount = 0, tag = 0, scan_fsize = 0, thread_shared = False\<rparr>\<rparr>)))
       \<and> (refcount (header blk) \<noteq> 0 \<longrightarrow>
            block_release1 X b f s = block_release0 X b s
            \<and> block_release1 X b f s =
                (case drop_block X b s of Inl e \<Rightarrow> Inl e
                 | Inr s2 \<Rightarrow> Inr (orphan_null X, s2)))"
  using assms
  by (simp add: block_release1_def block_release0_def block_is_unique_def orphan_block_def)

theorem block_release1_drops_field_iff_unique_witness:
  "block_release1 halting 0x100 0x200 (one_block (HEADER 2 65003)) = Inl (External ''drop_boxed'')
   \<and> block_release1 (halting\<lparr>drop_boxed := (\<lambda>v s. Inr s)\<rparr>) 0x100 0x200
         (one_block (HEADER 2 65003))
        = Inr (0x100, one_block (HEADER 0 0))
   \<and> block_release1 halting 0x100 0x200 (one_block (HEADER 2 65003\<lparr>refcount := 1\<rparr>))
        = Inr (orphan_null halting, one_block (HEADER 2 65003))"
proof -
  let ?blk = "\<lparr>header = HEADER 2 65003, payload = (\<lambda>i. 0)\<rparr>"
  let ?s = "one_block (HEADER 2 65003)"
  let ?Y = "halting\<lparr>drop_boxed := (\<lambda>v s. Inr s)\<rparr>"
  have live: "?s 0x100 = Some ?blk"
    by (simp add: one_block_def)
  have uniq: "refcount (header ?blk) = 0"
    by (simp add: HEADER_def)
  have stops: "drop_boxed halting 0x200 ?s = Inl (External ''drop_boxed'')"
    by (simp add: halting_def)
  have returns: "drop_boxed ?Y 0x200 ?s = Inr ?s"
    by simp
  from block_release1_drops_field_iff_unique
      [of ?s "0x100" ?blk halting "0x200" "External ''drop_boxed''" ?s ?blk, OF live]
    uniq stops
  have a: "block_release1 halting 0x100 0x200 ?s = Inl (External ''drop_boxed'')"
    by simp
  from block_release1_drops_field_iff_unique
      [of ?s "0x100" ?blk ?Y "0x200" "External ''drop_boxed''" ?s ?blk, OF live,
        THEN conjunct2, THEN conjunct2, THEN conjunct1]
    uniq returns live
  have b: "block_release1 ?Y 0x100 0x200 ?s = Inr (0x100, one_block (HEADER 0 0))"
    by (simp add: one_block_def HEADER_def)
  let ?blk1 = "\<lparr>header = HEADER 2 65003\<lparr>refcount := 1\<rparr>, payload = (\<lambda>i. 0)\<rparr>"
  let ?t = "one_block (HEADER 2 65003\<lparr>refcount := 1\<rparr>)"
  have live1: "?t 0x100 = Some ?blk1"
    by (simp add: one_block_def)
  from block_release1_drops_field_iff_unique
      [of ?t "0x100" ?blk1 halting "0x200" "External ''drop_boxed''" ?t ?blk1, OF live1,
        THEN conjunct2, THEN conjunct2, THEN conjunct2, rule_format, THEN conjunct2]
  have c: "block_release1 halting 0x100 0x200 ?t = Inr (orphan_null halting, one_block (HEADER 2 65003))"
    by (simp add: one_block_def HEADER_def drop_block_def)
  from a b c show ?thesis
    by simp
qed

text \<open>
  The claim as first stated has the field dropped first in both branches, so that
  \<^verbatim>\<open>block_release1(b, f)\<close> would be \<^verbatim>\<open>drop_boxed(f)\<close> followed by \<^verbatim>\<open>block_release0(b)\<close>.
  On a block with stored count 1 (two owners) it is not: under the externals that stop
  at every call, \<^verbatim>\<open>block_release1\<close> returns the sentinel with the count lowered to 0 and
  \<^verbatim>\<open>drop_boxed\<close> was never called, while dropping the field first stops in
  \<^verbatim>\<open>drop_boxed\<close>.
\<close>

theorem block_release1_shared_keeps_field:
  "block_release1 halting 0x100 0x200 (one_block (HEADER 2 65003\<lparr>refcount := 1\<rparr>))
     = Inr (orphan_null halting, one_block (HEADER 2 65003))
   \<and> (case drop_boxed halting 0x200 (one_block (HEADER 2 65003\<lparr>refcount := 1\<rparr>)) of
        Inl e \<Rightarrow> Inl e
      | Inr s1 \<Rightarrow> block_release0 halting 0x100 s1) = Inl (External ''drop_boxed'')
   \<and> block_release1 halting 0x100 0x200 (one_block (HEADER 2 65003\<lparr>refcount := 1\<rparr>))
     \<noteq> (case drop_boxed halting 0x200 (one_block (HEADER 2 65003\<lparr>refcount := 1\<rparr>)) of
          Inl e \<Rightarrow> Inl e
        | Inr s1 \<Rightarrow> block_release0 halting 0x100 s1)"
  by (simp add: block_release1_def block_is_unique_def drop_block_def one_block_def
      HEADER_def halting_def orphan_null_def)


section \<open>The scan size of large blocks\<close>

text \<open>
  Claim C4. For every scan-field count \<open>n\<close> that a boxed enum can hold (\<open>n < 2^62\<close>, which
  includes 255, 256 and 100000), a live block initialised by \<^verbatim>\<open>block_large_init\<close>, and so
  one made by \<^verbatim>\<open>block_large_alloc\<close>, has the sentinel \<^verbatim>\<open>0xFF\<close> as its inline count, the
  count boxed in the field after the header, and \<^verbatim>\<open>block_scan_fsize\<close> returns \<open>n\<close> for it.
  For a live block whose inline count is not the sentinel, \<^verbatim>\<open>block_scan_fsize\<close> returns
  the inline count unchanged.
\<close>

theorem block_scan_fsize_large_roundtrip:
  assumes "s b = Some blk"
  shows "(n < 2 ^ 62 \<longrightarrow>
           (\<exists>s1. block_large_init b sz n tg s = Inr s1 \<and> block_scan_fsize b s1 = Inr n
                 \<and> header_at b s1 = Some (HEADER 0xFF (word_of_int tg))))
       \<and> (n < 2 ^ 62 \<and> malloc X (sz + 1) s0 = (b, s) \<longrightarrow>
           (\<exists>s1. block_large_alloc X sz n tg s0 = Inr (b, s1) \<and> block_scan_fsize b s1 = Inr n))
       \<and> (scan_fsize (header blk) \<noteq> 0xFF \<longrightarrow>
            block_scan_fsize b s = Inr (ucast (scan_fsize (header blk))))"
  using assms
  by (simp add: block_large_init_def block_large_alloc_def runtime_malloc_def
      block_scan_fsize_def SCAN_FSIZE_MAX_def Let_def header_at_def HEADER_def
      unbox_box_enum ucast_8_64_eq_255)

theorem block_scan_fsize_large_roundtrip_witness:
  "(case block_large_alloc halting 64 255 TAG_VECTOR Map.empty of Inl e \<Rightarrow> Inl e
    | Inr (b, s1) \<Rightarrow> block_scan_fsize b s1) = Inr 255
   \<and> (case block_large_alloc halting 64 256 TAG_VECTOR Map.empty of Inl e \<Rightarrow> Inl e
    | Inr (b, s1) \<Rightarrow> block_scan_fsize b s1) = Inr 256
   \<and> (case block_large_alloc halting 64 100000 TAG_VECTOR Map.empty of Inl e \<Rightarrow> Inl e
    | Inr (b, s1) \<Rightarrow> block_scan_fsize b s1) = Inr 100000
   \<and> block_scan_fsize 0x100 (one_block (HEADER 254 7)) = Inr 254"
proof -
  let ?s = "Map.empty(0x1000 \<mapsto> zero_block) :: heap"
  have live: "?s 0x1000 = Some zero_block" by simp
  have m: "malloc halting (64 + 1) Map.empty = (0x1000, ?s)"
    by (simp add: halting_def)
  have "\<exists>s1. block_large_alloc halting 64 255 TAG_VECTOR Map.empty = Inr (0x1000, s1)
          \<and> block_scan_fsize 0x1000 s1 = Inr 255"
    using block_scan_fsize_large_roundtrip
      [of ?s "0x1000" zero_block 255 64 TAG_VECTOR halting Map.empty, OF live] m
    by simp
  moreover have "\<exists>s1. block_large_alloc halting 64 256 TAG_VECTOR Map.empty = Inr (0x1000, s1)
          \<and> block_scan_fsize 0x1000 s1 = Inr 256"
    using block_scan_fsize_large_roundtrip
      [of ?s "0x1000" zero_block 256 64 TAG_VECTOR halting Map.empty, OF live] m
    by simp
  moreover have "\<exists>s1. block_large_alloc halting 64 100000 TAG_VECTOR Map.empty = Inr (0x1000, s1)
          \<and> block_scan_fsize 0x1000 s1 = Inr 100000"
    using block_scan_fsize_large_roundtrip
      [of ?s "0x1000" zero_block 100000 64 TAG_VECTOR halting Map.empty, OF live] m
    by simp
  moreover have "block_scan_fsize 0x100 (one_block (HEADER 254 7)) = Inr 254"
    using block_scan_fsize_large_roundtrip [of "one_block (HEADER 254 7)" "0x100"
        "\<lparr>header = HEADER 254 7, payload = (\<lambda>i. 0)\<rparr>" 0 0 0 halting Map.empty]
    by (simp add: one_block_def HEADER_def)
  ultimately show ?thesis
    by auto
qed

section \<open>Reusing an orphan\<close>

lemma block_init_header:
  assumes "sfsize < SCAN_FSIZE_MAX" and "s b = Some blk"
  shows "block_init X b sz sfsize tg s
           = Inr (s(b \<mapsto> blk\<lparr>header := HEADER (ucast sfsize) (word_of_int tg)\<rparr>))"
  using assms by (simp add: block_init_def assert_internal_def HEADER_def)

lemma fresh_header_reads:
  assumes "sfsize < SCAN_FSIZE_MAX"
    and "s b = Some blk" and "header blk = HEADER (ucast sfsize) (word_of_int tg)"
  shows "block_is_unique b s = Inr True"
    and "block_scan_fsize b s = Inr sfsize"
    and "0 \<le> tg \<Longrightarrow> tg < 65536 \<Longrightarrow> block_tag b s = Inr tg"
    and "\<not> thread_shared (header blk)"
proof -
  from assms(1) have small: "sfsize < 255"
    by (simp add: SCAN_FSIZE_MAX_def)
  then have roundtrip: "(ucast (ucast sfsize :: 8 word) :: 64 word) = sfsize"
    by (rule ucast_64_8_64)
  from small have "sfsize \<noteq> 255" by auto
  with assms(2,3) roundtrip show "block_scan_fsize b s = Inr sfsize"
    by (simp add: block_scan_fsize_def HEADER_def SCAN_FSIZE_MAX_def Let_def)
  from assms(2,3) show "block_is_unique b s = Inr True"
    by (simp add: block_is_unique_def HEADER_def)
  from assms(2,3) show "0 \<le> tg \<Longrightarrow> tg < 65536 \<Longrightarrow> block_tag b s = Inr tg"
    by (simp add: block_tag_def HEADER_def uint_tag)
  from assms(3) show "\<not> thread_shared (header blk)"
    by (simp add: HEADER_def)
qed

text \<open>
  Claim C6. Let \<open>sfsize < 255\<close>, let \<open>orphan\<close> be the sentinel or a live unique block, and
  let the allocator return a live block \<open>p\<close>. Then \<^verbatim>\<open>block_alloc_reuse\<close> returns a block
  whose header is the header of the block that \<^verbatim>\<open>block_alloc\<close> makes for the same size,
  scan size and tag: count 0, so unique, the tag (cast to 16 bits), the scan size, and
  the thread-shared flag clear; the tag and the scan size read back through
  \<^verbatim>\<open>block_tag\<close> and \<^verbatim>\<open>block_scan_fsize\<close>. When \<open>orphan\<close> is not the sentinel the block
  returned is \<open>orphan\<close> itself and the heap differs from the old one only in that header
  (the size plays no part: there is no growth check); when it is the sentinel the result
  is that of \<^verbatim>\<open>block_alloc\<close>, on storage from the allocator.
\<close>

theorem block_alloc_reuse_as_fresh:
  assumes sf: "sfsize < SCAN_FSIZE_MAX"
    and orphan: "is_orphan X orphan s"
    and fresh: "malloc X sz s = (p, s1)" "s1 p = Some blk1"
  shows "\<exists>b s2 s3.
           block_alloc_reuse X orphan sz sfsize tg s = Inr (b, s2)
         \<and> block_alloc X sz sfsize tg s = Inr (p, s3)
         \<and> s3 = s1(p \<mapsto> blk1\<lparr>header := HEADER (ucast sfsize) (word_of_int tg)\<rparr>)
         \<and> header_at b s2 = Some (HEADER (ucast sfsize) (word_of_int tg))
         \<and> header_at p s3 = Some (HEADER (ucast sfsize) (word_of_int tg))
         \<and> block_is_unique b s2 = Inr True
         \<and> block_scan_fsize b s2 = Inr sfsize
         \<and> (0 \<le> tg \<and> tg < 65536 \<longrightarrow> block_tag b s2 = Inr tg)
         \<and> (orphan \<noteq> orphan_null X \<longrightarrow>
              b = orphan
              \<and> (case s orphan of None \<Rightarrow> False
                 | Some blk \<Rightarrow>
                     s2 = s(orphan \<mapsto> blk\<lparr>header := HEADER (ucast sfsize) (word_of_int tg)\<rparr>)))
         \<and> (orphan = orphan_null X \<longrightarrow> b = p \<and> s2 = s3)"
proof -
  let ?h = "HEADER (ucast sfsize) (word_of_int tg)"
  let ?s3 = "s1(p \<mapsto> blk1\<lparr>header := ?h\<rparr>)"
  have alloc: "block_alloc X sz sfsize tg s = Inr (p, ?s3)"
    using sf fresh
    by (simp add: block_alloc_def runtime_malloc_def assert_internal_def block_init_header)
  have h3: "header_at p ?s3 = Some ?h"
    by (simp add: header_at_def)
  show ?thesis
  proof (cases "orphan = orphan_null X")
    case True
    then have reuse: "block_alloc_reuse X orphan sz sfsize tg s = Inr (p, ?s3)"
      using sf fresh by (simp add: block_alloc_reuse_def runtime_malloc_def block_init_header)
    have look: "?s3 p = Some (blk1\<lparr>header := ?h\<rparr>)" by simp
    have hd: "header (blk1\<lparr>header := ?h\<rparr>) = ?h" by simp
    note reads = fresh_header_reads [of sfsize ?s3 p "blk1\<lparr>header := ?h\<rparr>" tg, OF sf look hd]
    from True reuse alloc h3 reads show ?thesis
      by (intro exI [of _ p] exI [of _ ?s3]) simp
  next
    case False
    with orphan obtain blk where live: "s orphan = Some blk" and uniq: "refcount (header blk) = 0"
      by (auto simp: is_orphan_def split: option.splits)
    let ?s2 = "s(orphan \<mapsto> blk\<lparr>header := ?h\<rparr>)"
    from False live uniq sf have reuse: "block_alloc_reuse X orphan sz sfsize tg s = Inr (orphan, ?s2)"
      by (simp add: block_alloc_reuse_def assert_internal_def block_is_unique_def block_init_header)
    have look: "?s2 orphan = Some (blk\<lparr>header := ?h\<rparr>)" by simp
    have hd: "header (blk\<lparr>header := ?h\<rparr>) = ?h" by simp
    note reads = fresh_header_reads [of sfsize ?s2 orphan "blk\<lparr>header := ?h\<rparr>" tg, OF sf look hd]
    have h2: "header_at orphan ?s2 = Some ?h"
      by (simp add: header_at_def)
    from False reuse alloc h2 h3 reads live show ?thesis
      by (intro exI [of _ orphan] exI [of _ ?s2] exI [of _ ?s3]) simp
  qed
qed


theorem block_alloc_reuse_as_fresh_witness:
  "block_alloc_reuse halting 0x100 16 1 TAG_REF (one_block (HEADER 0 0))
      = Inr (0x100, one_block (HEADER 1 65003))
   \<and> block_alloc halting 16 1 TAG_REF (one_block (HEADER 0 0))
      = Inr (0x1000, (one_block (HEADER 0 0))(0x1000 \<mapsto> zero_block\<lparr>header := HEADER 1 65003\<rparr>))
   \<and> block_alloc_reuse halting (orphan_null halting) 16 1 TAG_REF (one_block (HEADER 0 0))
      = block_alloc halting 16 1 TAG_REF (one_block (HEADER 0 0))
   \<and> block_tag 0x100 (one_block (HEADER 1 65003)) = Inr TAG_REF
   \<and> block_scan_fsize 0x100 (one_block (HEADER 1 65003)) = Inr 1"
proof -
  let ?s = "one_block (HEADER 0 0)"
  let ?s1 = "?s(0x1000 \<mapsto> zero_block)"
  have sf: "(1 :: size_t) < SCAN_FSIZE_MAX"
    by (simp add: SCAN_FSIZE_MAX_def)
  have o1: "is_orphan halting 0x100 ?s"
    by (simp add: is_orphan_def one_block_def HEADER_def)
  have o2: "is_orphan halting (orphan_null halting) ?s"
    by (simp add: is_orphan_def)
  have m: "malloc halting 16 ?s = (0x1000, ?s1)"
    by (simp add: halting_def)
  have live: "?s1 0x1000 = Some zero_block"
    by simp
  have ne: "(0x100 :: ptr_t) \<noteq> orphan_null halting"
    by (simp add: orphan_null_def halting_def)
  from block_alloc_reuse_as_fresh [of 1 halting "0x100" ?s 16 "0x1000" ?s1 zero_block TAG_REF,
      OF sf o1 m live] ne
  have a: "block_alloc_reuse halting 0x100 16 1 TAG_REF ?s = Inr (0x100, one_block (HEADER 1 65003))
      \<and> block_alloc halting 16 1 TAG_REF ?s
          = Inr (0x1000, ?s(0x1000 \<mapsto> zero_block\<lparr>header := HEADER 1 65003\<rparr>))
      \<and> block_tag 0x100 (one_block (HEADER 1 65003)) = Inr TAG_REF
      \<and> block_scan_fsize 0x100 (one_block (HEADER 1 65003)) = Inr 1"
    by (auto simp: one_block_def header_at_def TAG_REF_def HEADER_def)
  from block_alloc_reuse_as_fresh [of 1 halting "orphan_null halting" ?s 16 "0x1000" ?s1
      zero_block TAG_REF, OF sf o2 m live]
  have b: "block_alloc_reuse halting (orphan_null halting) 16 1 TAG_REF ?s
      = block_alloc halting 16 1 TAG_REF ?s"
    by auto
  from a b show ?thesis
    by simp
qed

section \<open>Boxing a vector\<close>

text \<open>
  \<^verbatim>\<open>unbox_vector_t\<close> undoes \<^verbatim>\<open>box_ptr\<close> on a pointer to a block with a vector tag.
\<close>

lemma unbox_vector_of_box_ptr:
  assumes "s v = Some blk"
    and "uint (tag (header blk)) = TAG_VECTOR_SMALL \<or> uint (tag (header blk)) = TAG_VECTOR"
  shows "unbox_vector_t X (box_ptr v) s = Inr v"
  using assms
  by (auto simp: unbox_vector_t_def box_ptr_def unbox_ptr_def assert_internal_def block_tag_def)

text \<open>
  Claim C9 asks that boxing a vector with \<^verbatim>\<open>box_vector_t\<close> and unboxing the result with
  \<^verbatim>\<open>unbox_vector_t\<close> returns the vector. The code does not do this: \<^verbatim>\<open>box_vector_t\<close>
  computes \<^verbatim>\<open>box_ptr(&v->_block)\<close> and drops it, for it has no \<^verbatim>\<open>return\<close>; no boxed value
  reaches \<^verbatim>\<open>unbox_vector_t\<close>, for any vector.
\<close>

theorem box_vector_t_returns_no_value:
  "box_vector_t v = Inl No_return_value
   \<and> (case box_vector_t v of Inl e \<Rightarrow> Inl e | Inr bx \<Rightarrow> unbox_vector_t X bx s)
        = Inl No_return_value"
  by (simp add: box_vector_t_def)

section \<open>Vectors: what \<^verbatim>\<open>vector_alloc\<close> builds\<close>

text \<open>The fill loop returns, keeps the header and keeps the words before \<^verbatim>\<open>vec\<close>.\<close>

lemma vec_fill_keeps:
  "s v = Some blk \<Longrightarrow>
     \<exists>blk'. vec_fill v base dflt i len s = Inr (s(v \<mapsto> blk'))
       \<and> header blk' = header blk
       \<and> (\<forall>j<base. payload blk' j = payload blk j)"
proof (induction v base dflt i len s arbitrary: blk rule: vec_fill.induct)
  case (1 v base dflt i len s)
  show ?case
  proof (cases "i < len")
    case False
    have "s(v \<mapsto> blk) = s"
      using "1.prems" by (rule map_upd_triv)
    with False show ?thesis
      by (intro exI [of _ blk]) (simp add: vec_fill.simps [of v base dflt i len s])
  next
    case True
    let ?blk1 = "blk\<lparr>payload := (payload blk)(base + unat i := dflt)\<rparr>"
    let ?s1 = "s(v \<mapsto> ?blk1)"
    have store: "store_field v (base + unat i) dflt s = Inr ?s1"
      using "1.prems" by (simp add: store_field_def)
    have "?s1 v = Some ?blk1" by simp
    with "1.IH" [OF True store] obtain blk' where
      rest: "vec_fill v base dflt (i + 1) len ?s1 = Inr (?s1(v \<mapsto> blk'))"
      and hd: "header blk' = header ?blk1"
      and low: "\<forall>j<base. payload blk' j = payload ?blk1 j"
      by blast
    have "vec_fill v base dflt i len s = Inr (s(v \<mapsto> blk'))"
      using True store rest by (simp add: vec_fill.simps [of v base dflt i len s])
    moreover have "header blk' = header blk"
      using hd by simp
    moreover have "\<forall>j<base. payload blk' j = payload blk j"
      using low by simp
    ultimately show ?thesis
      by blast
  qed
qed


lemma uint_vector_tags:
  "uint (word_of_int TAG_VECTOR_SMALL :: 16 word) = TAG_VECTOR_SMALL"
  "uint (word_of_int TAG_VECTOR :: 16 word) = TAG_VECTOR"
  by (simp_all add: TAG_VECTOR_SMALL_def TAG_VECTOR_def)

lemma vector_alloc_small_result:
  assumes len: "len \<noteq> 0" "len < SCAN_FSIZE_MAX"
    and ok: "\<not> assertions X \<or> 1 + len < SCAN_FSIZE_MAX"
    and m: "malloc X (sizeof_vector_small_s + (len - 1) * sizeof_box_t) s = (p, s1)"
      "s1 p = Some blk1"
  shows "\<exists>blk'. vector_alloc X len dflt s = Inr (p, s1(p \<mapsto> blk'))
           \<and> header blk' = HEADER (ucast (1 + len)) (word_of_int TAG_VECTOR_SMALL)
           \<and> payload blk' 0 = box_enum len"
proof -
  let ?h = "HEADER (ucast (1 + len)) (word_of_int TAG_VECTOR_SMALL)"
  let ?blk2 = "blk1\<lparr>header := ?h\<rparr>"
  let ?s2 = "s1(p \<mapsto> ?blk2)"
  let ?blk3 = "?blk2\<lparr>payload := (payload ?blk2)(0 := box_enum len)\<rparr>"
  let ?s3 = "?s2(p \<mapsto> ?blk3)"
  have alloc: "block_alloc X (sizeof_vector_small_s + (len - 1) * sizeof_box_t) (1 + len)
                 TAG_VECTOR_SMALL s = Inr (p, ?s2)"
    using ok m
    by (auto simp: block_alloc_def block_init_def runtime_malloc_def assert_internal_def
        HEADER_def)
  have as: "block_as_assert X p TAG_VECTOR_SMALL ?s2 = Inr p"
    by (simp add: block_as_assert_def assert_internal_def block_tag_def HEADER_def
        uint_vector_tags)
  have store: "store_field p 0 (box_enum len) ?s2 = Inr ?s3"
    by (simp add: store_field_def)
  have live3: "?s3 p = Some ?blk3" by simp
  from vec_fill_keeps [of ?s3 p ?blk3 1 dflt 0 len, OF live3] obtain blk' where
    fill: "vec_fill p 1 dflt 0 len ?s3 = Inr (?s3(p \<mapsto> blk'))"
    and hd: "header blk' = header ?blk3"
    and low: "\<forall>j<1. payload blk' j = payload ?blk3 j"
    by blast
  have same3: "?s3 = s1(p \<mapsto> ?blk3)" by simp
  have same4: "?s3(p \<mapsto> blk') = s1(p \<mapsto> blk')" by simp
  show ?thesis
  proof (cases "dflt \<noteq> box_null X")
    case True
    have "vector_alloc X len dflt s = Inr (p, s1(p \<mapsto> blk'))"
      using len True alloc as store fill
      by (simp add: vector_alloc_def same4 del: fun_upd_apply)
    moreover have "header blk' = ?h" using hd by simp
    moreover have "payload blk' 0 = box_enum len" using low by simp
    ultimately show ?thesis by blast
  next
    case False
    have "vector_alloc X len dflt s = Inr (p, s1(p \<mapsto> ?blk3))"
      using len False alloc as store
      by (simp add: vector_alloc_def del: fun_upd_apply)
    moreover have "header ?blk3 = ?h" by simp
    moreover have "payload ?blk3 0 = box_enum len" by simp
    ultimately show ?thesis by blast
  qed
qed

lemma vector_alloc_large_result:
  assumes len: "\<not> len < SCAN_FSIZE_MAX"
    and m: "malloc X (sizeof_vector_large_s + (len - 1) * sizeof_box_t + 1) s = (p, s1)"
      "s1 p = Some blk1"
  shows "\<exists>blk'. vector_alloc X len dflt s = Inr (p, s1(p \<mapsto> blk'))
           \<and> header blk' = HEADER 0xFF (word_of_int TAG_VECTOR)
           \<and> payload blk' 0 = box_enum (1 + len)
           \<and> payload blk' 1 = box_enum len"
proof -
  let ?h = "HEADER 0xFF (word_of_int TAG_VECTOR)"
  let ?blk2 = "blk1\<lparr>header := ?h, payload := (payload blk1)(0 := box_enum (1 + len))\<rparr>"
  let ?s2 = "s1(p \<mapsto> ?blk2)"
  let ?blk3 = "?blk2\<lparr>payload := (payload ?blk2)(1 := box_enum len)\<rparr>"
  let ?s3 = "?s2(p \<mapsto> ?blk3)"
  from len have nz: "len \<noteq> 0"
    by (auto simp: SCAN_FSIZE_MAX_def)
  have alloc: "block_large_alloc X (sizeof_vector_large_s + (len - 1) * sizeof_box_t) (1 + len)
                 TAG_VECTOR s = Inr (p, ?s2)"
    using m
    by (simp add: block_large_alloc_def block_large_init_def runtime_malloc_def HEADER_def
        SCAN_FSIZE_MAX_def)
  have store: "store_field p 1 (box_enum len) ?s2 = Inr ?s3"
    by (simp add: store_field_def)
  have live3: "?s3 p = Some ?blk3" by simp
  from vec_fill_keeps [of ?s3 p ?blk3 2 dflt 0 len, OF live3] obtain blk' where
    fill: "vec_fill p 2 dflt 0 len ?s3 = Inr (?s3(p \<mapsto> blk'))"
    and hd: "header blk' = header ?blk3"
    and low: "\<forall>j<2. payload blk' j = payload ?blk3 j"
    by blast
  have same4: "?s3(p \<mapsto> blk') = s1(p \<mapsto> blk')" by simp
  show ?thesis
  proof (cases "dflt \<noteq> box_null X")
    case True
    have "vector_alloc X len dflt s = Inr (p, s1(p \<mapsto> blk'))"
      using len nz True alloc store fill
      by (simp add: vector_alloc_def same4 del: fun_upd_apply)
    moreover have "header blk' = ?h" using hd by simp
    moreover from low have "payload blk' 0 = payload ?blk3 0" and "payload blk' 1 = payload ?blk3 1"
      by simp_all
    then have "payload blk' 0 = box_enum (1 + len)" and "payload blk' 1 = box_enum len"
      by simp_all
    ultimately show ?thesis by blast
  next
    case False
    have "vector_alloc X len dflt s = Inr (p, s1(p \<mapsto> ?blk3))"
      using len nz False alloc store
      by (simp add: vector_alloc_def del: fun_upd_apply)
    moreover have "header ?blk3 = ?h" by simp
    moreover have "payload ?blk3 0 = box_enum (1 + len)" "payload ?blk3 1 = box_enum len"
      by simp_all
    ultimately show ?thesis by blast
  qed
qed


lemma vector_len_small:
  assumes "s v = Some blk"
    and "header blk = HEADER sf (word_of_int TAG_VECTOR_SMALL)"
    and "payload blk 0 = box_enum len" and "len < 2 ^ 62"
  shows "vector_len X v s = Inr len"
  using assms
  by (simp add: vector_len_def block_tag_def block_as_assert_def assert_internal_def
      load_field_def HEADER_def uint_vector_tags unbox_box_enum)

lemma vector_len_large:
  assumes "s v = Some blk"
    and "header blk = HEADER sf (word_of_int TAG_VECTOR)"
    and "payload blk 1 = box_enum len" and "len < 2 ^ 62"
  shows "vector_len X v s = Inr len"
  using assms
  by (simp add: vector_len_def block_tag_def block_as_assert_def assert_internal_def
      load_field_def HEADER_def uint_vector_tags unbox_box_enum TAG_VECTOR_def
      TAG_VECTOR_SMALL_def)

lemma vector_alloc_254_unchecked:
  assumes off: "\<not> assertions X"
    and m: "malloc X (sizeof_vector_small_s + (254 - 1) * sizeof_box_t) s = (p, s1)"
      "s1 p = Some blk1"
  shows "\<exists>s'. vector_alloc X 254 dflt s = Inr (p, s')
           \<and> header_at p s' = Some (HEADER 0xFF (word_of_int TAG_VECTOR_SMALL))
           \<and> block_scan_fsize p s' = Inr 254
           \<and> vector_len X p s' = Inr 254"
proof -
  have "\<exists>blk'. vector_alloc X 254 dflt s = Inr (p, s1(p \<mapsto> blk'))
           \<and> header blk' = HEADER (ucast (1 + 254 :: size_t)) (word_of_int TAG_VECTOR_SMALL)
           \<and> payload blk' 0 = box_enum 254"
    using off m by (intro vector_alloc_small_result) (simp_all add: SCAN_FSIZE_MAX_def)
  then obtain blk' where
    res: "vector_alloc X 254 dflt s = Inr (p, s1(p \<mapsto> blk'))"
    and hd: "header blk' = HEADER 0xFF (word_of_int TAG_VECTOR_SMALL)"
    and len: "payload blk' 0 = box_enum 254"
    by auto
  let ?s' = "s1(p \<mapsto> blk')"
  have live: "?s' p = Some blk'" by simp
  have "header_at p ?s' = Some (HEADER 0xFF (word_of_int TAG_VECTOR_SMALL))"
    using hd by (simp add: header_at_def)
  moreover have "block_scan_fsize p ?s' = Inr 254"
    using hd len unbox_box_enum [of 254]
    by (simp add: block_scan_fsize_def HEADER_def SCAN_FSIZE_MAX_def)
  moreover have "vector_len X p ?s' = Inr 254"
    using live hd len by (rule vector_len_small) simp
  ultimately show ?thesis
    using res by blast
qed

lemma small_succ_bound:
  assumes "len < SCAN_FSIZE_MAX" and "len \<noteq> 254"
  shows "1 + len < SCAN_FSIZE_MAX"
proof -
  from assms(1) have "unat len < 255"
    by (simp add: SCAN_FSIZE_MAX_def word_less_nat_alt)
  moreover have "unat len \<noteq> 254"
  proof
    assume "unat len = 254"
    then have "(of_nat (unat len) :: size_t) = of_nat 254" by simp
    then have "len = 254" by simp
    with assms(2) show False by simp
  qed
  ultimately have small: "unat len + unat (1 :: size_t) < 255" by simp
  then have "unat len + unat (1 :: size_t) < 2 ^ LENGTH(64)" by simp
  then have "unat (len + 1) = unat len + unat (1 :: size_t)"
    by (simp only: unat_add_lem)
  with small have "unat (1 + len) < 255"
    by (simp add: add.commute)
  then show ?thesis
    by (simp add: SCAN_FSIZE_MAX_def word_less_nat_alt)
qed

section \<open>Allocating a vector of 254 elements\<close>

text \<open>
  Claim C10 asks, for every length \<open>n\<close>, that \<^verbatim>\<open>vector_len\<close> of \<^verbatim>\<open>vector_alloc(n, d)\<close> is
  \<open>n\<close>, with the small representation and the inline scan count \<open>1 + n\<close> for
  \<open>0 < n < 255\<close>. The code does not do this at \<open>n = 254\<close>: the length passes
  \<^verbatim>\<open>length < SCAN_FSIZE_MAX\<close>, and \<^verbatim>\<open>block_alloc\<close> is called with the scan size 255.
  With assertions checked, \<^verbatim>\<open>assert_internal(scan_fsize < SCAN_FSIZE_MAX)\<close> stops the
  run, for all externals, defaults and heaps. With assertions compiled out, the inline
  count stored is \<^verbatim>\<open>0xFF\<close>, the sentinel of large blocks, so \<^verbatim>\<open>block_scan_fsize\<close> reads
  the word after the header, which holds the boxed length: it returns 254, not 255
  (shown for the allocator that hands out zeroed storage at \<^verbatim>\<open>0x1000\<close>, any default).
\<close>

theorem vector_alloc_254:
  "vector_alloc (X\<lparr>assertions := True\<rparr>) 254 dflt s = Inl Assertion_failed
   \<and> (\<exists>s'. vector_alloc (halting\<lparr>assertions := False\<rparr>) 254 dflt Map.empty = Inr (0x1000, s')
          \<and> header_at 0x1000 s' = Some (HEADER 0xFF (word_of_int TAG_VECTOR_SMALL))
          \<and> block_scan_fsize 0x1000 s' = Inr 254
          \<and> vector_len (halting\<lparr>assertions := False\<rparr>) 0x1000 s' = Inr 254)"
proof
  show "vector_alloc (X\<lparr>assertions := True\<rparr>) 254 dflt s = Inl Assertion_failed"
    by (simp add: vector_alloc_def block_alloc_def assert_internal_def SCAN_FSIZE_MAX_def)
next
  let ?X = "halting\<lparr>assertions := False\<rparr>"
  let ?s1 = "Map.empty(0x1000 \<mapsto> zero_block) :: heap"
  have off: "\<not> assertions ?X" by simp
  have m: "malloc ?X (sizeof_vector_small_s + (254 - 1) * sizeof_box_t) Map.empty = (0x1000, ?s1)"
    by (simp add: halting_def)
  have live: "?s1 0x1000 = Some zero_block" by simp
  from off m live show "\<exists>s'. vector_alloc ?X 254 dflt Map.empty = Inr (0x1000, s')
          \<and> header_at 0x1000 s' = Some (HEADER 0xFF (word_of_int TAG_VECTOR_SMALL))
          \<and> block_scan_fsize 0x1000 s' = Inr 254
          \<and> vector_len ?X 0x1000 s' = Inr 254"
    by (rule vector_alloc_254_unchecked)
qed

section \<open>The length of an allocated vector\<close>

text \<open>
  For every length \<open>n\<close> other than 0 and 254 that a boxed enum can hold (\<open>n < 2^62\<close>),
  if the allocator returns a live block, then \<^verbatim>\<open>vector_alloc(n, d)\<close> returns a vector \<open>v\<close>
  with \<^verbatim>\<open>vector_len(v) = n\<close>, whose tag is \<^verbatim>\<open>TAG_VECTOR_SMALL\<close> when \<open>n < 255\<close> and
  \<^verbatim>\<open>TAG_VECTOR\<close> otherwise, and whose scan size reads \<open>1 + n\<close>. For \<open>n = 0\<close> the result is
  that of \<^verbatim>\<open>dup_block\<close> on \<^verbatim>\<open>vector_empty\<close>: the allocator is not called.
\<close>

theorem vector_len_vector_alloc:
  assumes malloc_ok: "\<And>sz. \<exists>p s1 blk1. malloc X sz s = (p, s1) \<and> s1 p = Some blk1"
  shows "(len = 0 \<longrightarrow> vector_alloc X len dflt s = dup_block X (vector_empty X) s)
       \<and> (len \<noteq> 0 \<and> len \<noteq> 254 \<and> len < 2 ^ 62 \<longrightarrow>
            (\<exists>v s'. vector_alloc X len dflt s = Inr (v, s')
               \<and> vector_len X v s' = Inr len
               \<and> block_tag v s'
                    = Inr (if len < SCAN_FSIZE_MAX then TAG_VECTOR_SMALL else TAG_VECTOR)
               \<and> (1 + len < 2 ^ 62 \<longrightarrow> block_scan_fsize v s' = Inr (1 + len))))"
proof (intro conjI impI)
  assume "len = 0"
  then show "vector_alloc X len dflt s = dup_block X (vector_empty X) s"
    by (simp add: vector_alloc_def dup_vector_def)
next
  assume range: "len \<noteq> 0 \<and> len \<noteq> 254 \<and> len < 2 ^ 62"
  show "\<exists>v s'. vector_alloc X len dflt s = Inr (v, s')
               \<and> vector_len X v s' = Inr len
               \<and> block_tag v s'
                    = Inr (if len < SCAN_FSIZE_MAX then TAG_VECTOR_SMALL else TAG_VECTOR)
               \<and> (1 + len < 2 ^ 62 \<longrightarrow> block_scan_fsize v s' = Inr (1 + len))"
  proof (cases "len < SCAN_FSIZE_MAX")
    case True
    with range have succ: "1 + len < SCAN_FSIZE_MAX"
      by (simp add: small_succ_bound)
    from malloc_ok obtain p s1 blk1 where
      m: "malloc X (sizeof_vector_small_s + (len - 1) * sizeof_box_t) s = (p, s1)"
        "s1 p = Some blk1"
      by blast
    from range True succ m obtain blk' where
      res: "vector_alloc X len dflt s = Inr (p, s1(p \<mapsto> blk'))"
      and hd: "header blk' = HEADER (ucast (1 + len)) (word_of_int TAG_VECTOR_SMALL)"
      and ln: "payload blk' 0 = box_enum len"
      using vector_alloc_small_result [of len X s p s1 blk1 dflt] by auto
    let ?s' = "s1(p \<mapsto> blk')"
    have live: "?s' p = Some blk'" by simp
    have "vector_len X p ?s' = Inr len"
      using live hd ln range by (intro vector_len_small) simp_all
    moreover have "block_tag p ?s' = Inr TAG_VECTOR_SMALL"
      using hd by (simp add: block_tag_def HEADER_def uint_vector_tags)
    moreover have "block_scan_fsize p ?s' = Inr (1 + len)"
      using fresh_header_reads(2) [of "1 + len" ?s' p blk' TAG_VECTOR_SMALL, OF succ live hd] .
    ultimately show ?thesis
      using res True by auto
  next
    case False
    from malloc_ok obtain p s1 blk1 where
      m: "malloc X (sizeof_vector_large_s + (len - 1) * sizeof_box_t + 1) s = (p, s1)"
        "s1 p = Some blk1"
      by blast
    from False m obtain blk' where
      res: "vector_alloc X len dflt s = Inr (p, s1(p \<mapsto> blk'))"
      and hd: "header blk' = HEADER 0xFF (word_of_int TAG_VECTOR)"
      and sc: "payload blk' 0 = box_enum (1 + len)"
      and ln: "payload blk' 1 = box_enum len"
      using vector_alloc_large_result [of len X s p s1 blk1 dflt] by auto
    let ?s' = "s1(p \<mapsto> blk')"
    have live: "?s' p = Some blk'" by simp
    have "vector_len X p ?s' = Inr len"
      using live hd ln range by (intro vector_len_large) simp_all
    moreover have "block_tag p ?s' = Inr TAG_VECTOR"
      using hd by (simp add: block_tag_def HEADER_def uint_vector_tags)
    moreover have "1 + len < 2 ^ 62 \<longrightarrow> block_scan_fsize p ?s' = Inr (1 + len)"
      using hd sc
      by (simp add: block_scan_fsize_def HEADER_def SCAN_FSIZE_MAX_def unbox_box_enum)
    ultimately show ?thesis
      using res False by auto
  qed
qed

theorem vector_len_vector_alloc_witness:
  "(case vector_alloc halting 3 7 Map.empty of Inl e \<Rightarrow> Inl e
    | Inr (v, s') \<Rightarrow> vector_len halting v s') = Inr 3
   \<and> (case vector_alloc halting 1000 7 Map.empty of Inl e \<Rightarrow> Inl e
    | Inr (v, s') \<Rightarrow> vector_len halting v s') = Inr 1000
   \<and> (case vector_alloc halting 1000 7 Map.empty of Inl e \<Rightarrow> Inl e
    | Inr (v, s') \<Rightarrow> block_scan_fsize v s') = Inr 1001"
proof -
  have ok: "\<exists>p s1 blk1. malloc halting sz Map.empty = (p, s1) \<and> s1 p = Some blk1" for sz
    by (simp add: halting_def)
  from vector_len_vector_alloc [of halting Map.empty 3 7, OF ok]
  have three: "(case vector_alloc halting 3 7 Map.empty of Inl e \<Rightarrow> Inl e
      | Inr (v, s') \<Rightarrow> vector_len halting v s') = Inr 3"
    by auto
  from vector_len_vector_alloc [of halting Map.empty 1000 7, OF ok]
  have thousand: "(case vector_alloc halting 1000 7 Map.empty of Inl e \<Rightarrow> Inl e
      | Inr (v, s') \<Rightarrow> vector_len halting v s') = Inr 1000
    \<and> (case vector_alloc halting 1000 7 Map.empty of Inl e \<Rightarrow> Inl e
      | Inr (v, s') \<Rightarrow> block_scan_fsize v s') = Inr 1001"
    by auto
  from three thousand show ?thesis
    by simp
qed

section \<open>Raw tags\<close>

text \<open>
  Claim C8. For every tag value \<open>t\<close> of the enumeration's valid range, from \<^verbatim>\<open>TAG_MIN\<close>
  up to (not including) \<^verbatim>\<open>TAG_LAST\<close>, the single comparison \<^verbatim>\<open>tag_is_raw(t)\<close>, that is
  \<^verbatim>\<open>t >= TAG_CPTR_RAW\<close>, is true exactly for the three raw tags \<^verbatim>\<open>TAG_CPTR_RAW\<close>,
  \<^verbatim>\<open>TAG_STRING_RAW\<close> and \<^verbatim>\<open>TAG_BYTES_RAW\<close>, and false for every other tag; in particular
  it is false for every enumerator declared before \<^verbatim>\<open>TAG_CPTR_RAW\<close>. This holds in both
  configurations of \<^verbatim>\<open>INTPTR_SIZE\<close>.
\<close>

theorem tag_is_raw_exactly_raw_tags:
  "(TAG_MIN \<le> t \<and> t < TAG_LAST isz \<longrightarrow>
      tag_is_raw isz t =
        (t = TAG_CPTR_RAW isz \<or> t = TAG_STRING_RAW isz \<or> t = TAG_BYTES_RAW isz))
   \<and> (\<forall>u \<in> set (declared_tags_before_raw isz). \<not> tag_is_raw isz u)
   \<and> tag_is_raw isz (TAG_CPTR_RAW isz) \<and> tag_is_raw isz (TAG_STRING_RAW isz)
   \<and> tag_is_raw isz (TAG_BYTES_RAW isz)
   \<and> TAG_MIN \<le> TAG_CPTR_RAW isz \<and> TAG_BYTES_RAW isz < TAG_LAST isz"
  by (auto simp: tag_is_raw_def declared_tags_before_raw_def tag_defs)

theorem tag_is_raw_exactly_raw_tags_witness:
  "(TAG_MIN \<le> 65013 \<and> 65013 < TAG_LAST 8) \<and> tag_is_raw 8 65013 \<and> 65013 = TAG_STRING_RAW 8
   \<and> (TAG_MIN \<le> 65013 \<and> 65013 < TAG_LAST 4) \<and> \<not> tag_is_raw 4 65013 \<and> 65013 = TAG_DOUBLE
   \<and> TAG_VECTOR \<in> set (declared_tags_before_raw 8) \<and> \<not> tag_is_raw 8 TAG_VECTOR"
  using tag_is_raw_exactly_raw_tags [of 65013 8] tag_is_raw_exactly_raw_tags [of 65013 4]
  by (simp add: tag_is_raw_def declared_tags_before_raw_def tag_defs)

end
